theory Spec2Isabelle
  imports Complex_Main "HOL-Library.Word"
begin

section \<open>Data model of index.ts\<close>

text \<open>
  A JavaScript string is a sequence of UTF-16 code units; \<open>slice\<close> and \<open>length\<close> count
  code units. ASCII literals of the script are written as HOL strings and injected with
  \<open>js_lit\<close>.
\<close>

type_synonym jsstring = "16 word list"

definition js_lit :: "string \<Rightarrow> jsstring" where
  "js_lit s = map of_char s"

text \<open>
  The marker appended at line 116. As the file stands the literal holds the three code
  units U+00E2, U+20AC, U+00A6.
\<close>

definition ellipsis :: jsstring where
  "ellipsis = [0x00E2, 0x20AC, 0x00A6]"

text \<open>The three readonly fields of class VectorDatabase (lines 19 to 21).\<close>

definition indexName :: jsstring where
  "indexName = js_lit ''recipes''"

definition dimension :: nat where
  "dimension = 1536"

definition metric :: jsstring where
  "metric = js_lit ''cosine''"

text \<open>
  \<open>Recipe\<close> is the element type of recipes.json. The file itself is not part of the
  sources, so the corpus is a parameter of the script below.
\<close>

record recipe =
  recipe_id :: jsstring
  recipe_title :: jsstring
  recipe_content :: jsstring

text \<open>
  Values a vector-database record may carry as metadata: string, number, boolean or a
  list of strings. The script never computes with numbers, it only passes them on, so
  the number type is a parameter \<open>'f\<close>.
\<close>

datatype 'f meta_value =
    MString jsstring
  | MNumber 'f
  | MBoolean bool
  | MStrings "jsstring list"

text \<open>Only the keys \<open>title\<close> and \<open>content\<close> of a metadata object are ever read or written.\<close>

record 'f record_metadata =
  md_title :: "'f meta_value option"
  md_content :: "'f meta_value option"

record 'f pinecone_record =
  pr_id :: jsstring
  pr_values :: "'f list"
  pr_metadata :: "'f record_metadata option"

record 'f scored_record =
  m_id :: jsstring
  m_score :: "'f option"
  m_metadata :: "'f record_metadata option"

record 'f search_result =
  res_id :: jsstring
  res_title :: "'f meta_value option"
  res_content :: jsstring
  res_score :: "'f option"

record index_options =
  ix_name :: jsstring
  ix_dimension :: nat
  ix_metric :: jsstring
  ix_cloud :: jsstring
  ix_region :: jsstring

record 'f query_options =
  q_vector :: "'f list"
  q_topK :: nat
  q_includeMetadata :: bool

record 'f embedding_item =
  embedding :: "'f list"

datatype index_handle = Index jsstring

record process_env =
  PINECONE_API_KEY :: "jsstring option"
  OPEN_AI_API_KEY :: "jsstring option"

text \<open>
  What can be thrown: \<open>Error\<close> is \<open>new Error(message)\<close> raised by the script itself,
  \<open>TypeError\<close> a property read on \<open>undefined\<close>, \<open>Remote\<close> whatever one of the two
  SDKs raised.
\<close>

datatype error = Error string | TypeError | Remote string

section \<open>The outside world\<close>

text \<open>
  Everything the script does to its surroundings, in order: the calls that reach one of
  the two hosted services, and the console output.
\<close>

text \<open>
  An argument of \<open>console.log\<close>: plain text, or text passed through \<open>chalk.blue\<close>.
\<close>

datatype console_arg = Plain jsstring | Blue jsstring

datatype 'f event =
    ListIndexes
  | CreateIndex index_options
  | EmbeddingsCreate jsstring jsstring
  | Upsert jsstring "'f pinecone_record list"
  | Query jsstring "'f query_options"
  | ConsoleLog "console_arg list"
  | ConsoleTable "'f search_result list"

text \<open>
  The two services are not part of the repository. The world below is what the script
  can observe of them: the list of indexes (absent when the list response has no
  \<open>indexes\<close> field), the records stored per index, the answers of the embedding and the
  query endpoints as functions of the request, and a fault schedule that says which
  remote call, counted by \<open>clock\<close>, raises. A call that raises changes nothing remotely.
\<close>

record 'f world =
  indexes :: "index_options list option"
  stored :: "jsstring \<Rightarrow> jsstring \<Rightarrow> 'f pinecone_record option"
  embed_answer :: "jsstring \<Rightarrow> jsstring \<Rightarrow> 'f embedding_item list"
  query_answer :: "(jsstring \<Rightarrow> 'f pinecone_record option) \<Rightarrow> 'f query_options \<Rightarrow> 'f scored_record list"
  faults :: "nat \<Rightarrow> string option"
  clock :: nat
  trace :: "'f event list"

type_synonym ('f, 'a) io = "'f world \<Rightarrow> (error + 'a) \<times> 'f world"

definition return_io :: "'a \<Rightarrow> ('f, 'a) io" where
  "return_io x w = (Inr x, w)"

definition throw_io :: "error \<Rightarrow> ('f, 'a) io" where
  "throw_io e w = (Inl e, w)"

text \<open>\<open>await\<close> without \<open>try\<close>: a rejection of the first step skips the rest.\<close>

definition bind_io :: "('f, 'a) io \<Rightarrow> ('a \<Rightarrow> ('f, 'b) io) \<Rightarrow> ('f, 'b) io" where
  "bind_io m f w = (case m w of (Inl e, w') \<Rightarrow> (Inl e, w') | (Inr x, w') \<Rightarrow> f x w')"

definition remote_call :: "'f event \<Rightarrow> ('f world \<Rightarrow> 'a \<times> 'f world) \<Rightarrow> ('f, 'a) io" where
  "remote_call ev act w =
     (let w1 = w\<lparr>clock := Suc (clock w), trace := trace w @ [ev]\<rparr>
      in case faults w (clock w) of
           Some msg \<Rightarrow> (Inl (Remote msg), w1)
         | None \<Rightarrow> (case act w1 of (x, w2) \<Rightarrow> (Inr x, w2)))"

definition pinecone_listIndexes :: "('f, index_options list option) io" where
  "pinecone_listIndexes = remote_call ListIndexes (\<lambda>w. (indexes w, w))"

definition pinecone_createIndex :: "index_options \<Rightarrow> ('f, unit) io" where
  "pinecone_createIndex opts =
     remote_call (CreateIndex opts)
       (\<lambda>w. ((), w\<lparr>indexes := Some ((case indexes w of None \<Rightarrow> [] | Some xs \<Rightarrow> xs) @ [opts])\<rparr>))"

text \<open>Taking a handle is local: no request is sent.\<close>

definition pinecone_Index :: "jsstring \<Rightarrow> index_handle" where
  "pinecone_Index n = Index n"

fun handle_name :: "index_handle \<Rightarrow> jsstring" where
  "handle_name (Index n) = n"

definition put_records :: "'f pinecone_record list \<Rightarrow> (jsstring \<Rightarrow> 'f pinecone_record option)
    \<Rightarrow> (jsstring \<Rightarrow> 'f pinecone_record option)" where
  "put_records rs m = fold (\<lambda>r m'. m'(pr_id r \<mapsto> r)) rs m"

definition index_upsert :: "index_handle \<Rightarrow> 'f pinecone_record list \<Rightarrow> ('f, unit) io" where
  "index_upsert h rs =
     remote_call (Upsert (handle_name h) rs)
       (\<lambda>w. ((), w\<lparr>stored := (stored w)(handle_name h := put_records rs (stored w (handle_name h)))\<rparr>))"

definition index_query :: "index_handle \<Rightarrow> 'f query_options \<Rightarrow> ('f, 'f scored_record list) io" where
  "index_query h q =
     remote_call (Query (handle_name h) q)
       (\<lambda>w. (query_answer w (stored w (handle_name h)) q, w))"

definition openai_embeddings_create :: "jsstring \<Rightarrow> jsstring \<Rightarrow> ('f, 'f embedding_item list) io" where
  "openai_embeddings_create model input =
     remote_call (EmbeddingsCreate model input) (\<lambda>w. (embed_answer w model input, w))"

definition console_log :: "console_arg list \<Rightarrow> ('f, unit) io" where
  "console_log args w = (Inr (), w\<lparr>trace := trace w @ [ConsoleLog args]\<rparr>)"

definition console_table :: "'f search_result list \<Rightarrow> ('f, unit) io" where
  "console_table rs w = (Inr (), w\<lparr>trace := trace w @ [ConsoleTable rs]\<rparr>)"

section \<open>class VectorDatabase\<close>

text \<open>The getter \<open>#indexExists\<close> (lines 33 to 38).\<close>

definition indexExists :: "('f, bool) io" where
  "indexExists =
     bind_io pinecone_listIndexes
       (\<lambda>ixs. return_io (case ixs of
                           None \<Rightarrow> False
                         | Some xs \<Rightarrow> list_ex (\<lambda>index. ix_name index = indexName) xs))"

definition create_options :: index_options where
  "create_options =
     \<lparr>ix_name = indexName, ix_dimension = dimension, ix_metric = metric,
      ix_cloud = js_lit ''aws'', ix_region = js_lit ''us-east-1''\<rparr>"

text \<open>\<open>getIndex\<close> (lines 43 to 59).\<close>

definition getIndex :: "('f, index_handle) io" where
  "getIndex =
     bind_io indexExists
       (\<lambda>ex. if ex then return_io (pinecone_Index indexName)
             else bind_io (pinecone_createIndex create_options)
                    (\<lambda>_. return_io (pinecone_Index indexName)))"

text \<open>
  \<open>generateEmbedding\<close> (lines 65 to 72). \<open>response.data[0].embedding\<close> on an empty
  \<open>data\<close> reads a property of \<open>undefined\<close>.
\<close>

definition generateEmbedding :: "jsstring \<Rightarrow> ('f, 'f list) io" where
  "generateEmbedding text =
     bind_io (openai_embeddings_create (js_lit ''text-embedding-ada-002'') text)
       (\<lambda>data. case data of
                 [] \<Rightarrow> throw_io TypeError
               | d # _ \<Rightarrow> return_io (embedding d))"

text \<open>\<open>indexDocument\<close> (lines 74 to 88).\<close>

definition indexDocument :: "recipe \<Rightarrow> ('f, unit) io" where
  "indexDocument document =
     bind_io getIndex
       (\<lambda>index. bind_io (generateEmbedding (recipe_content document))
          (\<lambda>emb. index_upsert index
             [\<lparr>pr_id = recipe_id document,
               pr_values = emb,
               pr_metadata = Some \<lparr>md_title = Some (MString (recipe_title document)),
                                   md_content = Some (MString (recipe_content document))\<rparr>\<rparr>]))"

text \<open>
  \<open>toString()\<close> of a metadata value. How a number prints is left to the parameter
  \<open>ns\<close>; an array prints its elements joined by commas.
\<close>

fun join_comma :: "jsstring list \<Rightarrow> jsstring" where
  "join_comma [] = []"
| "join_comma [x] = x"
| "join_comma (x # y # ys) = x @ [0x2C] @ join_comma (y # ys)"

fun toString :: "('f \<Rightarrow> jsstring) \<Rightarrow> 'f meta_value \<Rightarrow> jsstring" where
  "toString ns (MString s) = s"
| "toString ns (MNumber n) = ns n"
| "toString ns (MBoolean b) = (if b then js_lit ''true'' else js_lit ''false'')"
| "toString ns (MStrings xs) = join_comma xs"

text \<open>
  The callback of \<open>matches.map\<close> (lines 113 to 118). With no metadata both optional
  chains yield \<open>undefined\<close>, and \<open>undefined + marker\<close> is the text \<open>undefined\<close> followed by
  the marker. With metadata but no \<open>content\<close> key, \<open>.toString()\<close> is called on
  \<open>undefined\<close> and throws.
\<close>

definition present_match :: "('f \<Rightarrow> jsstring) \<Rightarrow> 'f scored_record \<Rightarrow> error + 'f search_result" where
  "present_match ns match =
     (case m_metadata match of
        None \<Rightarrow> Inr \<lparr>res_id = m_id match, res_title = None,
                     res_content = js_lit ''undefined'' @ ellipsis,
                     res_score = m_score match\<rparr>
      | Some md \<Rightarrow>
          (case md_content md of
             None \<Rightarrow> Inl TypeError
           | Some c \<Rightarrow> Inr \<lparr>res_id = m_id match, res_title = md_title md,
                            res_content = take 50 (toString ns c) @ ellipsis,
                            res_score = m_score match\<rparr>))"

text \<open>\<open>Array.prototype.map\<close> with a callback that may throw: the first throw ends it.\<close>

fun map_throwing :: "('a \<Rightarrow> error + 'b) \<Rightarrow> 'a list \<Rightarrow> error + 'b list" where
  "map_throwing f [] = Inr []"
| "map_throwing f (x # xs) =
     (case f x of
        Inl e \<Rightarrow> Inl e
      | Inr y \<Rightarrow> (case map_throwing f xs of Inl e \<Rightarrow> Inl e | Inr ys \<Rightarrow> Inr (y # ys)))"

text \<open>\<open>semanticSearch\<close> (lines 93 to 119).\<close>

definition semanticSearch :: "('f \<Rightarrow> jsstring) \<Rightarrow> jsstring \<Rightarrow> nat \<Rightarrow> ('f, 'f search_result list) io" where
  "semanticSearch ns query topK =
     bind_io (generateEmbedding query)
       (\<lambda>vector. bind_io getIndex
          (\<lambda>index. bind_io (index_query index
                              \<lparr>q_vector = vector, q_topK = topK, q_includeMetadata = True\<rparr>)
             (\<lambda>matches. case map_throwing (present_match ns) matches of
                          Inl e \<Rightarrow> throw_io e
                        | Inr rs \<Rightarrow> return_io rs)))"

section \<open>The top-level script\<close>

text \<open>\<open>!v\<close> for \<open>v\<close> of type \<open>string | undefined\<close>: true for \<open>undefined\<close> and for the empty string.\<close>

definition falsy :: "jsstring option \<Rightarrow> bool" where
  "falsy v = (case v of None \<Rightarrow> True | Some s \<Rightarrow> s = [])"

text \<open>The \<open>for ... of\<close> loop of lines 125 to 128.\<close>

fun index_all :: "recipe list \<Rightarrow> ('f, unit) io" where
  "index_all [] = return_io ()"
| "index_all (r # rs) =
     bind_io (console_log [Blue (js_lit ''Indexing recipe:''), Plain (recipe_title r)])
       (\<lambda>_. bind_io (indexDocument r) (\<lambda>_. index_all rs))"

text \<open>
  The module body: the two guards of lines 12 and 13, the construction of the database
  object (which sends nothing), the loop, the one search and the table.
\<close>

definition script :: "('f \<Rightarrow> jsstring) \<Rightarrow> process_env \<Rightarrow> recipe list \<Rightarrow> ('f, unit) io" where
  "script ns env recipes =
     (if falsy (PINECONE_API_KEY env) then throw_io (Error ''Pinecone API key is required'')
      else if falsy (OPEN_AI_API_KEY env) then throw_io (Error ''OpenAI API key is required'')
      else bind_io (index_all recipes)
             (\<lambda>_. bind_io (semanticSearch ns (js_lit ''recipes with ice cream'') 3)
                (\<lambda>searchResults. console_table searchResults)))"

section \<open>Notions used in the statements\<close>

text \<open>Whether the list of indexes names the configured index.\<close>

definition listed :: "'f world \<Rightarrow> bool" where
  "listed w = (case indexes w of
                 None \<Rightarrow> False
               | Some xs \<Rightarrow> list_ex (\<lambda>index. ix_name index = indexName) xs)"

text \<open>
  The matches the query endpoint answers with when \<open>semanticSearch query topK\<close> is run
  in world \<open>w\<close>: the answer to the embedded query over the records of the index.
\<close>

definition remote_matches :: "'f world \<Rightarrow> jsstring \<Rightarrow> nat \<Rightarrow> 'f scored_record list" where
  "remote_matches w query topK =
     query_answer w (stored w indexName)
       \<lparr>q_vector = embedding (hd (embed_answer w (js_lit ''text-embedding-ada-002'') query)),
        q_topK = topK, q_includeMetadata = True\<rparr>"

text \<open>\<open>a >= b\<close> on scores that may be \<open>undefined\<close>: false as soon as one side is missing.\<close>

fun score_ge :: "('f::linorder) option \<Rightarrow> 'f option \<Rightarrow> bool" where
  "score_ge (Some a) (Some b) = (b \<le> a)"
| "score_ge _ _ = False"

text \<open>The arguments of the progress line the loop prints for a document (line 126).\<close>

definition progress_line :: "recipe \<Rightarrow> console_arg list" where
  "progress_line r = [Blue (js_lit ''Indexing recipe:''), Plain (recipe_title r)]"

text \<open>The record \<open>indexDocument\<close> writes for a document.\<close>

definition upserted :: "'f world \<Rightarrow> recipe \<Rightarrow> 'f pinecone_record" where
  "upserted w document =
     \<lparr>pr_id = recipe_id document,
      pr_values = embedding (hd (embed_answer w (js_lit ''text-embedding-ada-002'')
                                   (recipe_content document))),
      pr_metadata = Some \<lparr>md_title = Some (MString (recipe_title document)),
                          md_content = Some (MString (recipe_content document))\<rparr>\<rparr>"

fun is_create :: "'f event \<Rightarrow> bool" where
  "is_create (CreateIndex _) = True"
| "is_create _ = False"

fun create_ok :: "'f event \<Rightarrow> bool" where
  "create_ok (CreateIndex opts) = (ix_dimension opts = 1536 \<and> ix_metric opts = js_lit ''cosine'')"
| "create_ok _ = True"

text \<open>
  What no operation of the script changes between two worlds: the endpoints' answers and
  the fault schedule stay, a listed index stays listed, and the trace only grows, by
  events whose index creations carry the fixed dimension and metric.
\<close>

definition frame :: "'f world \<Rightarrow> 'f world \<Rightarrow> bool" where
  "frame w w' =
     (embed_answer w' = embed_answer w \<and> query_answer w' = query_answer w \<and>
      faults w' = faults w \<and> (listed w \<longrightarrow> listed w') \<and>
      (\<exists>evs. trace w' = trace w @ evs \<and> list_all create_ok evs))"

text \<open>
  The kind of each event, keeping what was printed, which text was embedded and which
  ids were written.
\<close>

datatype step = SLog "console_arg list" | SList | SCreate | SEmbed jsstring | SUpsert "jsstring list"
  | SQuery | STable

fun shape :: "'f event \<Rightarrow> step" where
  "shape ListIndexes = SList"
| "shape (CreateIndex _) = SCreate"
| "shape (EmbeddingsCreate _ input) = SEmbed input"
| "shape (Upsert _ rs) = SUpsert (map pr_id rs)"
| "shape (Query _ _) = SQuery"
| "shape (ConsoleLog args) = SLog args"
| "shape (ConsoleTable _) = STable"

text \<open>The steps of one \<open>getIndex\<close>: a listing, and a creation if the index was not listed.\<close>

definition ensure_steps :: "bool \<Rightarrow> step list" where
  "ensure_steps present = (if present then [SList] else [SList, SCreate])"

text \<open>The steps of a successful run as the code performs them.\<close>

fun loop_steps :: "bool \<Rightarrow> recipe list \<Rightarrow> step list" where
  "loop_steps present [] = []"
| "loop_steps present (r # rs) =
     [SLog (progress_line r)] @ ensure_steps present
       @ [SEmbed (recipe_content r), SUpsert [recipe_id r]] @ loop_steps True rs"

definition script_steps :: "bool \<Rightarrow> recipe list \<Rightarrow> step list" where
  "script_steps present recipes =
     loop_steps present recipes @ [SEmbed (js_lit ''recipes with ice cream'')]
       @ ensure_steps (present \<or> recipes \<noteq> []) @ [SQuery, STable]"

text \<open>
  The steps as the specification words them: the index is ensured once, then every
  document is announced, embedded and upserted, then the query is embedded, searched
  and printed.
\<close>

definition spec_linear_steps :: "bool \<Rightarrow> recipe list \<Rightarrow> step list" where
  "spec_linear_steps present recipes =
     ensure_steps present
       @ concat (map (\<lambda>r. [SLog (progress_line r), SEmbed (recipe_content r),
                            SUpsert [recipe_id r]]) recipes)
       @ [SEmbed (js_lit ''recipes with ice cream''), SQuery, STable]"

section \<open>Concrete worlds for the examples\<close>

text \<open>
  A world with no index yet, no faults, an embedding endpoint that answers every text
  with the same two numbers, and a query endpoint that answers with the first \<open>topK\<close>
  of a given list of matches.
\<close>

definition world_with :: "real scored_record list \<Rightarrow> real world" where
  "world_with ms =
     \<lparr>indexes = None, stored = (\<lambda>_ _. None),
      embed_answer = (\<lambda>_ _. [\<lparr>embedding = [1 / 2, 1 / 4]\<rparr>]),
      query_answer = (\<lambda>_ q. take (q_topK q) ms),
      faults = (\<lambda>_. None), clock = 0, trace = []\<rparr>"

definition long_match :: "real scored_record" where
  "long_match =
     \<lparr>m_id = js_lit ''1'', m_score = Some (9 / 10),
      m_metadata = Some \<lparr>md_title = Some (MString (js_lit ''Vanilla Ice Cream'')),
                         md_content = Some (MString (replicate 500 0x61))\<rparr>\<rparr>"

definition short_match :: "real scored_record" where
  "short_match =
     \<lparr>m_id = js_lit ''2'', m_score = Some (8 / 10),
      m_metadata = Some \<lparr>md_title = Some (MString (js_lit ''Tomato Soup'')),
                         md_content = Some (MString (js_lit ''Simmer.''))\<rparr>\<rparr>"

definition bare_match :: "real scored_record" where
  "bare_match = \<lparr>m_id = js_lit ''3'', m_score = Some (7 / 10), m_metadata = None\<rparr>"

definition edge_content :: jsstring where
  "edge_content = replicate 50 0x61 @ ellipsis"

definition edge_match :: "real scored_record" where
  "edge_match =
     \<lparr>m_id = js_lit ''4'', m_score = Some (6 / 10),
      m_metadata = Some \<lparr>md_title = Some (MString (js_lit ''Grilled Cheese'')),
                         md_content = Some (MString edge_content)\<rparr>\<rparr>"

definition demo_matches :: "real scored_record list" where
  "demo_matches = [long_match, short_match, bare_match]"

definition demo_query :: jsstring where
  "demo_query = js_lit ''recipes with ice cream''"

definition vanilla :: recipe where
  "vanilla = \<lparr>recipe_id = js_lit ''1'', recipe_title = js_lit ''Vanilla Ice Cream'',
               recipe_content = js_lit ''Churn cream and sugar.''\<rparr>"

definition soup :: recipe where
  "soup = \<lparr>recipe_id = js_lit ''2'', recipe_title = js_lit ''Tomato Soup'',
            recipe_content = js_lit ''Simmer.''\<rparr>"

definition cheese :: recipe where
  "cheese = \<lparr>recipe_id = js_lit ''3'', recipe_title = js_lit ''Grilled Cheese'',
              recipe_content = js_lit ''Fry bread with cheese.''\<rparr>"

definition corpus :: "recipe list" where
  "corpus = [vanilla, soup, cheese]"

definition demo_env :: process_env where
  "demo_env = \<lparr>PINECONE_API_KEY = Some (js_lit ''pc-key''),
               OPEN_AI_API_KEY = Some (js_lit ''sk-key'')\<rparr>"

text \<open>
  The same world with an embedding endpoint that keeps the contract of the model: every
  text is answered with one vector of 1536 numbers.
\<close>

definition ada_world :: "real world" where
  "ada_world =
     (world_with demo_matches)\<lparr>embed_answer := (\<lambda>_ _. [\<lparr>embedding = replicate 1536 (1 / 2)\<rparr>])\<rparr>"

text \<open>The same world, except that the remote call number \<open>n\<close> raises.\<close>

definition failing_world :: "nat \<Rightarrow> real world" where
  "failing_world n =
     (world_with demo_matches)\<lparr>faults := (\<lambda>k. if k = n then Some ''rate limit'' else None)\<rparr>"

section \<open>Basic facts\<close>

lemmas run_defs = semanticSearch_def generateEmbedding_def getIndex_def indexExists_def
  pinecone_listIndexes_def pinecone_createIndex_def openai_embeddings_create_def
  index_query_def index_upsert_def pinecone_Index_def remote_call_def bind_io_def
  return_io_def throw_io_def console_log_def console_table_def indexDocument_def

lemmas demo_defs = world_with_def demo_matches_def long_match_def short_match_def
  bare_match_def edge_match_def edge_content_def demo_query_def corpus_def vanilla_def
  soup_def cheese_def progress_line_def
  demo_env_def failing_world_def js_lit_def ellipsis_def indexName_def

lemma map_throwing_Inr: "map_throwing f xs = Inr ys \<Longrightarrow> map f xs = map Inr ys"
  by (induction xs arbitrary: ys) (auto split: sum.splits)

lemma map_throwing_length: "map_throwing f xs = Inr ys \<Longrightarrow> length ys = length xs"
  using map_throwing_Inr [of f xs ys] by (metis length_map)

lemma map_throwing_nth:
  "map_throwing f xs = Inr ys \<Longrightarrow> i < length ys \<Longrightarrow> f (xs ! i) = Inr (ys ! i)"
  using map_throwing_Inr [of f xs ys] map_throwing_length [of f xs ys]
  by (metis nth_map)

lemma remote_call_Inr:
  "remote_call ev act w = (Inr x, w') \<Longrightarrow>
     faults w (clock w) = None \<and>
     (x, w') = act (w\<lparr>clock := Suc (clock w), trace := trace w @ [ev]\<rparr>)"
  by (auto simp: remote_call_def Let_def split: option.splits prod.splits)

lemma bind_io_Inr:
  "bind_io m f w = (Inr y, w') \<Longrightarrow> \<exists>x w1. m w = (Inr x, w1) \<and> f x w1 = (Inr y, w')"
  by (auto simp: bind_io_def split: prod.splits sum.splits)

lemma semanticSearch_Inr:
  assumes "semanticSearch ns query topK w = (Inr rs, w')"
  shows "map_throwing (present_match ns) (remote_matches w query topK) = Inr rs"
  using assms
  unfolding semanticSearch_def generateEmbedding_def getIndex_def indexExists_def
    pinecone_listIndexes_def pinecone_createIndex_def openai_embeddings_create_def
    index_query_def pinecone_Index_def remote_matches_def
  by (auto dest!: bind_io_Inr remote_call_Inr simp: return_io_def throw_io_def
      split: list.splits if_splits sum.splits option.splits)

lemma present_match_content_length:
  "present_match ns m = Inr r \<Longrightarrow> length (res_content r) \<le> 50 + length ellipsis"
  by (auto simp: present_match_def js_lit_def split: option.splits)

lemma present_match_stored:
  "present_match ns m = Inr r \<Longrightarrow> m_metadata m = Some md \<Longrightarrow> md_content md = Some c \<Longrightarrow>
     res_content r = take 50 (toString ns c) @ ellipsis \<and> res_title r = md_title md"
  by (auto simp: present_match_def split: option.splits)

lemma present_match_bare:
  "m_metadata m = None \<Longrightarrow>
     present_match ns m = Inr \<lparr>res_id = m_id m, res_title = None,
        res_content = js_lit ''undefined'' @ ellipsis, res_score = m_score m\<rparr>"
  by (simp add: present_match_def)

lemma present_match_id_score:
  "present_match ns m = Inr r \<Longrightarrow> res_id r = m_id m \<and> res_score r = m_score m"
  by (auto simp: present_match_def split: option.splits)

lemma demo_search:
  "fst (semanticSearch (\<lambda>_. []) demo_query 3 (world_with demo_matches)) =
     Inr [\<lparr>res_id = js_lit ''1'', res_title = Some (MString (js_lit ''Vanilla Ice Cream'')),
           res_content = replicate 50 0x61 @ ellipsis, res_score = Some (9 / 10)\<rparr>,
          \<lparr>res_id = js_lit ''2'', res_title = Some (MString (js_lit ''Tomato Soup'')),
           res_content = js_lit ''Simmer.'' @ ellipsis, res_score = Some (8 / 10)\<rparr>,
          \<lparr>res_id = js_lit ''3'', res_title = None,
           res_content = js_lit ''undefined'' @ ellipsis, res_score = Some (7 / 10)\<rparr>]"
  by (simp add: run_defs demo_defs present_match_def Let_def)

lemma edge_search:
  "fst (semanticSearch (\<lambda>_. []) demo_query 3 (world_with [edge_match])) =
     Inr [\<lparr>res_id = js_lit ''4'', res_title = Some (MString (js_lit ''Grilled Cheese'')),
           res_content = edge_content, res_score = Some (6 / 10)\<rparr>]"
  by (simp add: run_defs demo_defs present_match_def Let_def)

lemma demo_remote_matches:
  "remote_matches (world_with demo_matches) demo_query 3 = demo_matches"
  by (simp add: remote_matches_def world_with_def demo_matches_def)

lemma run_pair: "fst (m w) = r \<Longrightarrow> m w = (r, snd (m w))"
  by (simp add: prod_eq_iff)

section \<open>Effects of the operations\<close>

lemma create_options_fields:
  "ix_name create_options = indexName" "ix_dimension create_options = 1536"
  "ix_metric create_options = js_lit ''cosine''"
  by (simp_all add: create_options_def dimension_def metric_def)

lemma getIndex_unfold:
  "getIndex w =
     (case faults w (clock w) of
        Some msg \<Rightarrow> (Inl (Remote msg), w\<lparr>clock := Suc (clock w), trace := trace w @ [ListIndexes]\<rparr>)
      | None \<Rightarrow>
          if listed w
          then (Inr (Index indexName), w\<lparr>clock := Suc (clock w), trace := trace w @ [ListIndexes]\<rparr>)
          else (case faults w (Suc (clock w)) of
                  Some msg \<Rightarrow>
                    (Inl (Remote msg),
                     w\<lparr>clock := Suc (Suc (clock w)),
                       trace := trace w @ [ListIndexes, CreateIndex create_options]\<rparr>)
                | None \<Rightarrow>
                    (Inr (Index indexName),
                     w\<lparr>clock := Suc (Suc (clock w)),
                       trace := trace w @ [ListIndexes, CreateIndex create_options],
                       indexes := Some ((case indexes w of None \<Rightarrow> [] | Some xs \<Rightarrow> xs)
                                         @ [create_options])\<rparr>)))"
  by (simp add: getIndex_def indexExists_def pinecone_listIndexes_def pinecone_createIndex_def
      pinecone_Index_def remote_call_def bind_io_def return_io_def listed_def Let_def
      split: option.splits)

lemma generateEmbedding_unfold:
  "generateEmbedding text w =
     (case faults w (clock w) of
        Some msg \<Rightarrow>
          (Inl (Remote msg),
           w\<lparr>clock := Suc (clock w),
             trace := trace w @ [EmbeddingsCreate (js_lit ''text-embedding-ada-002'') text]\<rparr>)
      | None \<Rightarrow>
          (case embed_answer w (js_lit ''text-embedding-ada-002'') text of
             [] \<Rightarrow> (Inl TypeError,
                    w\<lparr>clock := Suc (clock w),
                      trace := trace w @ [EmbeddingsCreate (js_lit ''text-embedding-ada-002'') text]\<rparr>)
           | d # ds \<Rightarrow> (Inr (embedding d),
                    w\<lparr>clock := Suc (clock w),
                      trace := trace w @ [EmbeddingsCreate (js_lit ''text-embedding-ada-002'') text]\<rparr>)))"
  by (simp add: generateEmbedding_def openai_embeddings_create_def remote_call_def bind_io_def
      return_io_def throw_io_def Let_def split: option.splits list.splits)

lemma index_upsert_unfold:
  "index_upsert (Index n) rs w =
     (case faults w (clock w) of
        Some msg \<Rightarrow> (Inl (Remote msg), w\<lparr>clock := Suc (clock w), trace := trace w @ [Upsert n rs]\<rparr>)
      | None \<Rightarrow> (Inr (), w\<lparr>clock := Suc (clock w), trace := trace w @ [Upsert n rs],
                           stored := (stored w)(n := put_records rs (stored w n))\<rparr>))"
  by (simp add: index_upsert_def remote_call_def Let_def split: option.splits)

lemma index_query_unfold:
  "index_query (Index n) q w =
     (case faults w (clock w) of
        Some msg \<Rightarrow> (Inl (Remote msg), w\<lparr>clock := Suc (clock w), trace := trace w @ [Query n q]\<rparr>)
      | None \<Rightarrow> (Inr (query_answer w (stored w n) q),
                  w\<lparr>clock := Suc (clock w), trace := trace w @ [Query n q]\<rparr>))"
  by (simp add: index_query_def remote_call_def Let_def split: option.splits)

lemma bind_io_cases:
  assumes "bind_io m f w = (r, w')"
  obtains (fail) e where "m w = (Inl e, w')" "r = Inl e"
        | (ok) x w1 where "m w = (Inr x, w1)" "f x w1 = (r, w')"
  using assms by (auto simp: bind_io_def split: prod.splits sum.splits)

lemma getIndex_any:
  assumes "getIndex w = (r, w')"
  shows "stored w' = stored w \<and> embed_answer w' = embed_answer w \<and>
         query_answer w' = query_answer w \<and> faults w' = faults w \<and>
         (\<exists>evs. trace w' = trace w @ evs \<and> list_all create_ok evs) \<and>
         (\<forall>msg. r \<noteq> Inl (Error msg)) \<and> (listed w \<longrightarrow> listed w')"
  using assms unfolding getIndex_unfold
  by (auto simp: create_options_fields listed_def split: option.splits if_splits)

lemma getIndex_ok:
  assumes "getIndex w = (Inr h, w')"
  shows "h = Index indexName \<and> listed w' \<and>
         (\<exists>evs. trace w' = trace w @ evs \<and> map shape evs = ensure_steps (listed w))"
  using assms unfolding getIndex_unfold
  by (auto simp: listed_def ensure_steps_def create_options_fields split: option.splits if_splits)


lemma frame_refl: "frame w w"
  by (simp add: frame_def)

lemma frame_trans: "frame w w1 \<Longrightarrow> frame w1 w2 \<Longrightarrow> frame w w2"
proof -
  assume a: "frame w w1" and b: "frame w1 w2"
  from a obtain evs where evs: "trace w1 = trace w @ evs" "list_all create_ok evs"
    by (auto simp: frame_def)
  from b obtain evs' where evs': "trace w2 = trace w1 @ evs'" "list_all create_ok evs'"
    by (auto simp: frame_def)
  from evs evs' have "trace w2 = trace w @ (evs @ evs') \<and> list_all create_ok (evs @ evs')"
    by simp
  then have "\<exists>es. trace w2 = trace w @ es \<and> list_all create_ok es" by blast
  with a b show ?thesis by (simp add: frame_def)
qed

lemma getIndex_frame:
  "getIndex w = (r, w') \<Longrightarrow> frame w w' \<and> stored w' = stored w \<and> (\<forall>msg. r \<noteq> Inl (Error msg))"
  using getIndex_any [of w r w'] by (simp add: frame_def)

lemma generateEmbedding_frame:
  "generateEmbedding text w = (r, w') \<Longrightarrow>
     frame w w' \<and> stored w' = stored w \<and> (\<forall>msg. r \<noteq> Inl (Error msg))"
  unfolding generateEmbedding_unfold frame_def
  by (auto simp: listed_def split: option.splits list.splits)

lemma generateEmbedding_ok:
  "generateEmbedding text w = (Inr v, w') \<Longrightarrow>
     v = embedding (hd (embed_answer w (js_lit ''text-embedding-ada-002'') text)) \<and>
     indexes w' = indexes w \<and>
     trace w' = trace w @ [EmbeddingsCreate (js_lit ''text-embedding-ada-002'') text]"
  unfolding generateEmbedding_unfold
  by (auto split: option.splits list.splits)

lemma index_upsert_frame:
  "index_upsert (Index n) rs w = (r, w') \<Longrightarrow>
     frame w w' \<and> (\<forall>msg. r \<noteq> Inl (Error msg)) \<and> (\<forall>e. r = Inl e \<longrightarrow> stored w' = stored w)"
  unfolding index_upsert_unfold frame_def
  by (auto simp: listed_def split: option.splits)

lemma index_upsert_ok:
  "index_upsert (Index n) rs w = (Inr u, w') \<Longrightarrow>
     stored w' = (stored w)(n := put_records rs (stored w n)) \<and> indexes w' = indexes w \<and>
     trace w' = trace w @ [Upsert n rs]"
  unfolding index_upsert_unfold
  by (auto split: option.splits)

lemma index_query_frame:
  "index_query (Index n) q w = (r, w') \<Longrightarrow>
     frame w w' \<and> stored w' = stored w \<and> (\<forall>msg. r \<noteq> Inl (Error msg))"
  unfolding index_query_unfold frame_def
  by (auto simp: listed_def split: option.splits)

lemma index_query_ok:
  "index_query (Index n) q w = (Inr ms, w') \<Longrightarrow>
     indexes w' = indexes w \<and> trace w' = trace w @ [Query n q]"
  unfolding index_query_unfold
  by (auto split: option.splits)

lemma indexDocument_any:
  assumes "indexDocument d w = (r, w')"
  shows "frame w w' \<and> (\<forall>msg. r \<noteq> Inl (Error msg)) \<and> (\<forall>e. r = Inl e \<longrightarrow> stored w' = stored w)"
  using assms unfolding indexDocument_def
proof (cases rule: bind_io_cases)
  case (fail e)
  then show ?thesis using getIndex_frame [of w "Inl e" w'] by simp
next
  case (ok h w1)
  note g = getIndex_frame [OF ok(1)]
  from g have g1: "frame w w1" and g2: "stored w1 = stored w" by simp_all
  from getIndex_ok [OF ok(1)] have h: "h = Index indexName" by simp
  from ok(2) show ?thesis
  proof (cases rule: bind_io_cases)
    case (fail e)
    note em = generateEmbedding_frame [OF fail(1)]
    from em have "frame w1 w'" by simp
    with g1 have "frame w w'" by (rule frame_trans)
    with em g2 fail(2) show ?thesis by simp
  next
    case (ok v w2)
    note em = generateEmbedding_frame [OF ok(1)]
    from em have "frame w1 w2" and e2: "stored w2 = stored w1" by simp_all
    with g1 have f2: "frame w w2" by (blast intro: frame_trans [of w w1 w2])
    from ok(2) [unfolded h] have u: "frame w2 w' \<and> (\<forall>msg. r \<noteq> Inl (Error msg)) \<and>
        (\<forall>e. r = Inl e \<longrightarrow> stored w' = stored w2)"
      by (rule index_upsert_frame)
    from u have "frame w2 w'" by simp
    with f2 have "frame w w'" by (rule frame_trans)
    with g2 e2 u show ?thesis by simp
  qed
qed

lemma put_one: "put_records [r] m = m(pr_id r \<mapsto> r)"
  by (simp add: put_records_def)

lemma indexDocument_ok:
  assumes "indexDocument d w = (Inr u, w')"
  shows "listed w' \<and>
         stored w' = (stored w)(indexName := (stored w indexName)(recipe_id d \<mapsto> upserted w d)) \<and>
         (\<exists>evs. trace w' = trace w @ evs \<and>
                map shape evs = ensure_steps (listed w)
                                  @ [SEmbed (recipe_content d), SUpsert [recipe_id d]])"
proof -
  from assms obtain h w1 v w2 where
    g: "getIndex w = (Inr h, w1)" and
    e: "generateEmbedding (recipe_content d) w1 = (Inr v, w2)" and
    u: "index_upsert h
          [\<lparr>pr_id = recipe_id d, pr_values = v,
            pr_metadata = Some \<lparr>md_title = Some (MString (recipe_title d)),
                                md_content = Some (MString (recipe_content d))\<rparr>\<rparr>] w2
        = (Inr u, w')"
    unfolding indexDocument_def by (blast dest!: bind_io_Inr)
  note gf = getIndex_frame [OF g] and gk = getIndex_ok [OF g]
  note ek = generateEmbedding_ok [OF e]
  from gk have h: "h = Index indexName" by simp
  note uk = index_upsert_ok [OF u [unfolded h]]
  from gf have ea: "embed_answer w1 = embed_answer w" by (simp add: frame_def)
  from ek ea have v: "v = pr_values (upserted w d)" by (simp add: upserted_def)
  have l: "listed w'"
    using gk ek uk by (simp add: listed_def)
  have s: "stored w' = (stored w)(indexName := (stored w indexName)(recipe_id d \<mapsto> upserted w d))"
    using gf generateEmbedding_frame [OF e] uk v
    by (simp add: put_one upserted_def)
  from gk obtain evs where evs: "trace w1 = trace w @ evs" "map shape evs = ensure_steps (listed w)"
    by blast
  have "trace w' = trace w @ (evs @ [EmbeddingsCreate (js_lit ''text-embedding-ada-002'') (recipe_content d),
      Upsert indexName [\<lparr>pr_id = recipe_id d, pr_values = v,
            pr_metadata = Some \<lparr>md_title = Some (MString (recipe_title d)),
                                md_content = Some (MString (recipe_content d))\<rparr>\<rparr>]])"
    using evs ek uk by simp
  moreover have "map shape (evs @ [EmbeddingsCreate (js_lit ''text-embedding-ada-002'') (recipe_content d),
      Upsert indexName [\<lparr>pr_id = recipe_id d, pr_values = v,
            pr_metadata = Some \<lparr>md_title = Some (MString (recipe_title d)),
                                md_content = Some (MString (recipe_content d))\<rparr>\<rparr>]])
      = ensure_steps (listed w) @ [SEmbed (recipe_content d), SUpsert [recipe_id d]]"
    using evs by simp
  ultimately show ?thesis using l s by blast
qed

lemma present_match_error: "present_match ns m = Inl e \<Longrightarrow> e = TypeError"
  by (auto simp: present_match_def split: option.splits)

lemma map_throwing_error:
  "map_throwing (present_match ns) ms = Inl e \<Longrightarrow> e = TypeError"
  by (induction ms) (auto split: sum.splits dest: present_match_error)

lemma semanticSearch_any:
  assumes "semanticSearch ns query topK w = (r, w')"
  shows "frame w w' \<and> stored w' = stored w \<and> (\<forall>msg. r \<noteq> Inl (Error msg))"
  using assms unfolding semanticSearch_def
proof (cases rule: bind_io_cases)
  case (fail e)
  then show ?thesis using generateEmbedding_frame [of query w "Inl e" w'] by simp
next
  case (ok v w1)
  note e = generateEmbedding_frame [OF ok(1)]
  from e have e1: "frame w w1" and e2: "stored w1 = stored w" by simp_all
  from ok(2) show ?thesis
  proof (cases rule: bind_io_cases)
    case (fail e')
    note g = getIndex_frame [OF fail(1)]
    from g have "frame w1 w'" by simp
    with e1 have "frame w w'" by (rule frame_trans)
    with g e2 fail(2) show ?thesis by simp
  next
    case (ok h w2)
    note g = getIndex_frame [OF ok(1)]
    from g have g1: "frame w1 w2" and g2: "stored w2 = stored w1" by simp_all
    from e1 g1 have f2: "frame w w2" by (rule frame_trans)
    from getIndex_ok [OF ok(1)] have h: "h = Index indexName" by simp
    from ok(2) show ?thesis
    proof (cases rule: bind_io_cases)
      case (fail e')
      note q = index_query_frame [OF fail(1) [unfolded h]]
      from q have "frame w2 w'" by simp
      with f2 have "frame w w'" by (rule frame_trans)
      with q e2 g2 fail(2) show ?thesis by simp
    next
      case (ok ms w3)
      note q = index_query_frame [OF ok(1) [unfolded h]]
      from q have "frame w2 w3" by simp
      with f2 have f3: "frame w w3" by (rule frame_trans)
      from ok(2) have w3: "w3 = w'" and r: "\<forall>msg. r \<noteq> Inl (Error msg)"
        by (auto simp: throw_io_def return_io_def split: sum.splits dest: map_throwing_error)
      from f3 q e2 g2 w3 r show ?thesis by simp
    qed
  qed
qed

lemma semanticSearch_ok:
  assumes "semanticSearch ns query topK w = (Inr rs, w')"
  shows "\<exists>evs. trace w' = trace w @ evs \<and>
               map shape evs = [SEmbed query] @ ensure_steps (listed w) @ [SQuery]"
  using assms unfolding semanticSearch_def
proof (cases rule: bind_io_cases)
  case (fail e)
  then show ?thesis by simp
next
  case (ok v w1)
  note ek = generateEmbedding_ok [OF ok(1)]
  from ek have l: "listed w1 = listed w" by (simp add: listed_def)
  from ok(2) show ?thesis
  proof (cases rule: bind_io_cases)
    case (fail e)
    then show ?thesis by simp
  next
    case (ok h w2)
    note gk = getIndex_ok [OF ok(1)]
    from gk have h: "h = Index indexName" by simp
    from gk obtain evs where evs: "trace w2 = trace w1 @ evs"
        and sh: "map shape evs = ensure_steps (listed w1)"
      by blast
    from ok(2) show ?thesis
    proof (cases rule: bind_io_cases)
      case (fail e)
      then show ?thesis by simp
    next
      case (ok ms w3)
      note qk = index_query_ok [OF ok(1) [unfolded h]]
      from ok(2) have w3: "w3 = w'"
        by (cases "map_throwing (present_match ns) ms") (simp_all add: throw_io_def return_io_def)
      let ?q = "Query indexName \<lparr>q_vector = v, q_topK = topK, q_includeMetadata = True\<rparr>"
      let ?all = "EmbeddingsCreate (js_lit ''text-embedding-ada-002'') query # evs @ [?q]"
      have t3: "trace w3 = trace w2 @ [?q]" using qk by simp
      have t1: "trace w1 = trace w @ [EmbeddingsCreate (js_lit ''text-embedding-ada-002'') query]"
        using ek by simp
      have "trace w' = trace w @ ?all"
        unfolding w3 [symmetric] t3 evs t1 by simp
      moreover have "map shape ?all = [SEmbed query] @ ensure_steps (listed w) @ [SQuery]"
        unfolding l [symmetric] sh [symmetric] by simp
      ultimately show ?thesis by blast
    qed
  qed
qed

lemma console_log_frame: "frame w (w\<lparr>trace := trace w @ [ConsoleLog s]\<rparr>)"
  by (simp add: frame_def listed_def)

lemma console_table_frame: "frame w (w\<lparr>trace := trace w @ [ConsoleTable rs]\<rparr>)"
  by (simp add: frame_def listed_def)

lemma index_all_Cons:
  "index_all (d # ds) w =
     (case indexDocument d (w\<lparr>trace := trace w @ [ConsoleLog (progress_line d)]\<rparr>) of
        (Inl e, w1) \<Rightarrow> (Inl e, w1)
      | (Inr u, w1) \<Rightarrow> index_all ds w1)"
  by (simp add: bind_io_def console_log_def progress_line_def)

lemma index_all_any:
  "index_all ds w = (r, w') \<Longrightarrow> frame w w' \<and> (\<forall>msg. r \<noteq> Inl (Error msg))"
proof (induction ds arbitrary: w)
  case Nil
  then show ?case by (auto simp: return_io_def frame_refl)
next
  case (Cons d ds)
  let ?w0 = "w\<lparr>trace := trace w @ [ConsoleLog (progress_line d)]\<rparr>"
  obtain r1 w1 where d: "indexDocument d ?w0 = (r1, w1)" by (cases "indexDocument d ?w0")
  note a = indexDocument_any [OF d]
  have f0: "frame w ?w0" by (rule console_log_frame)
  from a have "frame ?w0 w1" by simp
  with f0 have f1: "frame w w1" by (rule frame_trans)
  show ?case
  proof (cases r1)
    case (Inl e)
    with Cons.prems d have "r = Inl e" "w' = w1" by (simp_all add: index_all_Cons del: index_all.simps)
    with f1 a Inl show ?thesis by simp
  next
    case (Inr u)
    with Cons.prems d have "index_all ds w1 = (r, w')" by (simp add: index_all_Cons del: index_all.simps)
    note ih = Cons.IH [OF this]
    from ih have "frame w1 w'" by simp
    with f1 have "frame w w'" by (rule frame_trans)
    with ih show ?thesis by simp
  qed
qed

lemma fold_put_Cons:
  "fold (\<lambda>d m. m(recipe_id d \<mapsto> g d)) (d # ds) m
     = fold (\<lambda>d m. m(recipe_id d \<mapsto> g d)) ds (m(recipe_id d \<mapsto> g d))"
  by (simp only: fold_simps)

lemma fold_put_other:
  "k \<notin> recipe_id ` set ds \<Longrightarrow> fold (\<lambda>d m. m(recipe_id d \<mapsto> g d)) ds m k = m k"
  by (induction ds arbitrary: m) auto

lemma fold_put_dom:
  "m k \<noteq> None \<Longrightarrow> fold (\<lambda>d m. m(recipe_id d \<mapsto> g d)) ds m k \<noteq> None"
  by (induction ds arbitrary: m) auto

lemma fold_put_present:
  "p \<in> set ds \<Longrightarrow> fold (\<lambda>d m. m(recipe_id d \<mapsto> g d)) ds m (recipe_id p) \<noteq> None"
proof (induction ds arbitrary: m)
  case Nil
  then show ?case by simp
next
  case (Cons d ds)
  show ?case
  proof (cases "p \<in> set ds")
    case True
    from Cons.IH [OF True, of "m(recipe_id d \<mapsto> g d)"] show ?thesis
      unfolding fold_put_Cons .
  next
    case False
    with Cons.prems have pd: "p = d" by simp
    have "fold (\<lambda>d m. m(recipe_id d \<mapsto> g d)) ds (m(recipe_id d \<mapsto> g d)) (recipe_id d) \<noteq> None"
      by (rule fold_put_dom) simp
    then show ?thesis unfolding pd fold_put_Cons .
  qed
qed

lemma fold_put_distinct:
  "distinct (map recipe_id ds) \<Longrightarrow> p \<in> set ds \<Longrightarrow>
     fold (\<lambda>d m. m(recipe_id d \<mapsto> g d)) ds m (recipe_id p) = Some (g p)"
proof (induction ds arbitrary: m)
  case Nil
  then show ?case by simp
next
  case (Cons d ds)
  from Cons.prems(1) have dist: "distinct (map recipe_id ds)"
    and fresh: "recipe_id d \<notin> recipe_id ` set ds" by simp_all
  show ?case
  proof (cases "p \<in> set ds")
    case True
    from Cons.IH [OF dist True, of "m(recipe_id d \<mapsto> g d)"] show ?thesis
      unfolding fold_put_Cons .
  next
    case False
    with Cons.prems have pd: "p = d" by simp
    have "fold (\<lambda>d m. m(recipe_id d \<mapsto> g d)) ds (m(recipe_id d \<mapsto> g d)) (recipe_id d)
            = (m(recipe_id d \<mapsto> g d)) (recipe_id d)"
      using fresh by (rule fold_put_other)
    also have "\<dots> = Some (g d)" by simp
    finally show ?thesis unfolding pd fold_put_Cons .
  qed
qed

lemma index_all_ok:
  "index_all ds w = (Inr u, w') \<Longrightarrow>
     (listed w' \<longleftrightarrow> listed w \<or> ds \<noteq> []) \<and>
     stored w' indexName = fold (\<lambda>d m. m(recipe_id d \<mapsto> upserted w d)) ds (stored w indexName) \<and>
     (\<exists>evs. trace w' = trace w @ evs \<and> map shape evs = loop_steps (listed w) ds)"
proof (induction ds arbitrary: w)
  case Nil
  then show ?case by (auto simp: return_io_def)
next
  case (Cons d ds)
  let ?w0 = "w\<lparr>trace := trace w @ [ConsoleLog (progress_line d)]\<rparr>"
  from Cons.prems obtain u1 w1 where
    d: "indexDocument d ?w0 = (Inr u1, w1)" and rest: "index_all ds w1 = (Inr u, w')"
    by (auto simp: index_all_Cons simp del: index_all.simps split: prod.splits sum.splits)
  note dk = indexDocument_ok [OF d] and da = indexDocument_any [OF d]
  note ih = Cons.IH [OF rest]
  have l0: "listed ?w0 = listed w" by (simp add: listed_def)
  have up: "upserted w1 = upserted w" "upserted ?w0 = upserted w"
    using da by (auto simp: frame_def upserted_def fun_eq_iff)
  from dk obtain evs where evs: "trace w1 = trace ?w0 @ evs"
      "map shape evs = ensure_steps (listed ?w0) @ [SEmbed (recipe_content d), SUpsert [recipe_id d]]"
    by blast
  from ih obtain evs' where evs': "trace w' = trace w1 @ evs'" "map shape evs' = loop_steps (listed w1) ds"
    by blast
  from dk have l1: "listed w1" by simp
  have t: "trace w' = trace w @ (ConsoleLog (progress_line d) # evs @ evs')"
    using evs evs' by simp
  have m: "map shape (ConsoleLog (progress_line d) # evs @ evs') = loop_steps (listed w) (d # ds)"
    using evs evs' l0 l1 by simp
  have s1: "stored w1 indexName = (stored w indexName)(recipe_id d \<mapsto> upserted w d)"
    using dk up by simp
  from ih have "stored w' indexName
      = fold (\<lambda>d m. m(recipe_id d \<mapsto> upserted w1 d)) ds (stored w1 indexName)"
    by (rule conjunct2 [THEN conjunct1])
  then have s: "stored w' indexName
      = fold (\<lambda>d m. m(recipe_id d \<mapsto> upserted w d)) (d # ds) (stored w indexName)"
    unfolding up(1) s1 fold_put_Cons .
  have l: "listed w' \<longleftrightarrow> listed w \<or> d # ds \<noteq> []"
    using ih l1 by simp
  from t m s l show ?case by blast
qed

lemma index_all_append_fail:
  "index_all pre w = (Inr u, w1) \<Longrightarrow>
   indexDocument d (w1\<lparr>trace := trace w1 @ [ConsoleLog (progress_line d)]\<rparr>) = (Inl e, w2) \<Longrightarrow>
   index_all (pre @ d # post) w = (Inl e, w2)"
proof (induction pre arbitrary: w)
  case Nil
  then show ?case by (simp add: index_all_Cons return_io_def del: index_all.simps(2))
next
  case (Cons p pre)
  from Cons.prems(1) obtain u1 wp where
    p: "indexDocument p (w\<lparr>trace := trace w @ [ConsoleLog (progress_line p)]\<rparr>) = (Inr u1, wp)"
    and rest: "index_all pre wp = (Inr u, w1)"
    by (auto simp: index_all_Cons simp del: index_all.simps split: prod.splits sum.splits)
  from Cons.IH [OF rest Cons.prems(2)] p show ?case
    by (simp add: index_all_Cons del: index_all.simps)
qed

lemma script_guarded:
  "\<not> falsy (PINECONE_API_KEY env) \<Longrightarrow> \<not> falsy (OPEN_AI_API_KEY env) \<Longrightarrow>
   script ns env recipes w =
     (case index_all recipes w of
        (Inl e, w1) \<Rightarrow> (Inl e, w1)
      | (Inr u, w1) \<Rightarrow>
          (case semanticSearch ns (js_lit ''recipes with ice cream'') 3 w1 of
             (Inl e, w2) \<Rightarrow> (Inl e, w2)
           | (Inr rs, w2) \<Rightarrow> (Inr (), w2\<lparr>trace := trace w2 @ [ConsoleTable rs]\<rparr>)))"
  by (simp add: script_def bind_io_def console_table_def split: prod.splits sum.splits)

lemma script_any:
  assumes "script ns env recipes w = (r, w')"
  shows "frame w w'"
proof (cases "falsy (PINECONE_API_KEY env) \<or> falsy (OPEN_AI_API_KEY env)")
  case True
  with assms have "w' = w" by (auto simp: script_def throw_io_def split: if_splits)
  then show ?thesis by (simp add: frame_refl)
next
  case False
  then have g: "\<not> falsy (PINECONE_API_KEY env)" "\<not> falsy (OPEN_AI_API_KEY env)" by simp_all
  obtain r1 w1 where a: "index_all recipes w = (r1, w1)" by (cases "index_all recipes w")
  from index_all_any [OF a] have fa: "frame w w1" by simp
  show ?thesis
  proof (cases r1)
    case (Inl e)
    with assms a g have "w' = w1" by (simp add: script_guarded)
    with fa show ?thesis by simp
  next
    case (Inr u)
    note r1 = this
    obtain r2 w2 where s: "semanticSearch ns (js_lit ''recipes with ice cream'') 3 w1 = (r2, w2)"
      by (cases "semanticSearch ns (js_lit ''recipes with ice cream'') 3 w1")
    from semanticSearch_any [OF s] have "frame w1 w2" by simp
    with fa have f2: "frame w w2" by (rule frame_trans)
    show ?thesis
    proof (cases r2)
      case (Inl e)
      with assms a s g r1 have "w' = w2" by (simp add: script_guarded)
      with f2 show ?thesis by simp
    next
      case (Inr rs)
      with assms a s g r1 have "w' = w2\<lparr>trace := trace w2 @ [ConsoleTable rs]\<rparr>"
        by (simp add: script_guarded)
      with frame_trans [OF f2 console_table_frame [of w2 rs]] show ?thesis by simp
    qed
  qed
qed

lemma script_no_Error:
  assumes "\<not> falsy (PINECONE_API_KEY env)" "\<not> falsy (OPEN_AI_API_KEY env)"
  shows "fst (script ns env recipes w) \<noteq> Inl (Error msg)"
proof -
  obtain r1 w1 where a: "index_all recipes w = (r1, w1)" by (cases "index_all recipes w")
  note fa = index_all_any [OF a]
  obtain r2 w2 where s: "semanticSearch ns (js_lit ''recipes with ice cream'') 3 w1 = (r2, w2)"
    by (cases "semanticSearch ns (js_lit ''recipes with ice cream'') 3 w1")
  note fs = semanticSearch_any [OF s]
  show ?thesis
    using assms a s fa fs
    by (auto simp: script_guarded split: sum.splits)
qed

lemma demo_script_run:
  "fst (script (\<lambda>_. []) demo_env corpus (world_with demo_matches)) = Inr () \<and>
   map shape (trace (snd (script (\<lambda>_. []) demo_env corpus (world_with demo_matches))))
     = [SLog (progress_line vanilla), SList, SCreate,
        SEmbed (js_lit ''Churn cream and sugar.''), SUpsert [js_lit ''1''],
        SLog (progress_line soup), SList,
        SEmbed (js_lit ''Simmer.''), SUpsert [js_lit ''2''],
        SLog (progress_line cheese), SList,
        SEmbed (js_lit ''Fry bread with cheese.''), SUpsert [js_lit ''3''],
        SEmbed (js_lit ''recipes with ice cream''), SList, SQuery, STable]"
  by (simp add: script_def falsy_def run_defs demo_defs present_match_def
      create_options_def put_records_def Let_def)

lemma demo_failing_run:
  "fst (index_all [vanilla] (failing_world 5)) = Inr () \<and>
   fst (indexDocument soup
         ((snd (index_all [vanilla] (failing_world 5)))
            \<lparr>trace := trace (snd (index_all [vanilla] (failing_world 5)))
                        @ [ConsoleLog (progress_line soup)]\<rparr>)) = Inl (Remote ''rate limit'')"
  by (simp add: run_defs demo_defs create_options_def put_records_def Let_def)

section \<open>Truncation of the displayed content\<close>

text \<open>
  C3. Every result that \<open>semanticSearch\<close> returns has a content of at most 50 code units
  plus the marker, whatever was stored. Stored text of 50 code units or more (500 in
  particular) comes back as exactly its first 50 code units followed by the marker.
\<close>

theorem semanticSearch_content_bounded:
  assumes "semanticSearch ns query topK w = (Inr rs, w')"
  shows "(\<forall>r \<in> set rs. length (res_content r) \<le> 50 + length ellipsis) \<and>
         (\<forall>i md s. i < length rs \<and> m_metadata (remote_matches w query topK ! i) = Some md \<and>
              md_content md = Some (MString s) \<and> 50 \<le> length s \<longrightarrow>
              res_content (rs ! i) = take 50 s @ ellipsis \<and>
              length (res_content (rs ! i)) = 50 + length ellipsis)"
proof -
  let ?ms = "remote_matches w query topK"
  have mt: "map_throwing (present_match ns) ?ms = Inr rs"
    using assms by (rule semanticSearch_Inr)
  have bound: "\<forall>r \<in> set rs. length (res_content r) \<le> 50 + length ellipsis"
  proof
    fix r assume "r \<in> set rs"
    then obtain i where i: "i < length rs" "r = rs ! i"
      by (auto simp: in_set_conv_nth)
    from map_throwing_nth [OF mt i(1)] i(2) show "length (res_content r) \<le> 50 + length ellipsis"
      by (auto dest: present_match_content_length)
  qed
  have long: "res_content (rs ! i) = take 50 s @ ellipsis \<and>
              length (res_content (rs ! i)) = 50 + length ellipsis"
    if "i < length rs" "m_metadata (?ms ! i) = Some md" "md_content md = Some (MString s)"
       "50 \<le> length s" for i md s
  proof -
    have "res_content (rs ! i) = take 50 (toString ns (MString s)) @ ellipsis"
      using present_match_stored [OF map_throwing_nth [OF mt that(1)] that(2) that(3)] by simp
    with that(4) show ?thesis by simp
  qed
  from bound long show ?thesis by blast
qed

theorem semanticSearch_content_bounded_witness:
  "fst (semanticSearch (\<lambda>_. []) demo_query 3 (world_with demo_matches)) =
     Inr [\<lparr>res_id = js_lit ''1'', res_title = Some (MString (js_lit ''Vanilla Ice Cream'')),
           res_content = replicate 50 0x61 @ ellipsis, res_score = Some (9 / 10)\<rparr>,
          \<lparr>res_id = js_lit ''2'', res_title = Some (MString (js_lit ''Tomato Soup'')),
           res_content = js_lit ''Simmer.'' @ ellipsis, res_score = Some (8 / 10)\<rparr>,
          \<lparr>res_id = js_lit ''3'', res_title = None,
           res_content = js_lit ''undefined'' @ ellipsis, res_score = Some (7 / 10)\<rparr>] \<and>
   length (replicate 500 (0x61 :: 16 word)) = 500 \<and>
   length (replicate 50 (0x61 :: 16 word) @ ellipsis) = 50 + length ellipsis \<and>
   length (js_lit ''Simmer.'' @ ellipsis) \<le> 50 + length ellipsis \<and>
   length (js_lit ''undefined'' @ ellipsis) \<le> 50 + length ellipsis"
proof -
  let ?w = "world_with demo_matches"
  let ?rs = "[\<lparr>res_id = js_lit ''1'', res_title = Some (MString (js_lit ''Vanilla Ice Cream'')),
           res_content = replicate 50 0x61 @ ellipsis, res_score = Some (9 / 10)\<rparr>,
          \<lparr>res_id = js_lit ''2'', res_title = Some (MString (js_lit ''Tomato Soup'')),
           res_content = js_lit ''Simmer.'' @ ellipsis, res_score = Some (8 / 10)\<rparr>,
          \<lparr>res_id = js_lit ''3'', res_title = None,
           res_content = js_lit ''undefined'' @ ellipsis, res_score = Some (7 / 10 :: real)\<rparr>]"
  have run: "semanticSearch (\<lambda>_. []) demo_query 3 ?w
               = (Inr ?rs, snd (semanticSearch (\<lambda>_. []) demo_query 3 ?w))"
    using demo_search by (rule run_pair)
  note t = semanticSearch_content_bounded [OF run]
  from t have all: "\<forall>r \<in> set ?rs. length (res_content r) \<le> 50 + length ellipsis"
    by (rule conjunct1)
  have pre: "0 < length ?rs \<and>
      m_metadata (remote_matches ?w demo_query 3 ! 0)
        = Some \<lparr>md_title = Some (MString (js_lit ''Vanilla Ice Cream'')),
                md_content = Some (MString (replicate 500 0x61))\<rparr> \<and>
      md_content \<lparr>md_title = Some (MString (js_lit ''Vanilla Ice Cream'')),
                  md_content = Some (MString (replicate 500 (0x61 :: 16 word)) :: real meta_value)\<rparr>
        = Some (MString (replicate 500 0x61)) \<and>
      50 \<le> length (replicate 500 (0x61 :: 16 word))"
    unfolding demo_remote_matches by (simp add: demo_matches_def long_match_def)
  from t pre have first: "res_content (?rs ! 0) = take 50 (replicate 500 0x61) @ ellipsis \<and>
        length (res_content (?rs ! 0)) = 50 + length ellipsis"
    by blast
  from all first demo_search show ?thesis by simp
qed

section \<open>Order of the results\<close>

text \<open>
  C8. \<open>semanticSearch\<close> returns one result per match of the query response, in the same
  order and with the same ids and scores. Hence, when the matches arrive with every
  adjacent pair in descending score order, so do the results.
\<close>

theorem semanticSearch_keeps_order:
  fixes w :: "('f::linorder) world"
  assumes "semanticSearch ns query topK w = (Inr rs, w')"
  shows "map res_id rs = map m_id (remote_matches w query topK) \<and>
         map res_score rs = map m_score (remote_matches w query topK) \<and>
         ((\<forall>i. Suc i < length (remote_matches w query topK) \<longrightarrow>
              score_ge (m_score (remote_matches w query topK ! i))
                       (m_score (remote_matches w query topK ! Suc i))) \<longrightarrow>
          (\<forall>i. Suc i < length rs \<longrightarrow>
              score_ge (res_score (rs ! i)) (res_score (rs ! Suc i))))"
proof -
  let ?ms = "remote_matches w query topK"
  have mt: "map_throwing (present_match ns) ?ms = Inr rs"
    using assms by (rule semanticSearch_Inr)
  have len: "length rs = length ?ms"
    using mt by (rule map_throwing_length)
  have each: "res_id (rs ! i) = m_id (?ms ! i) \<and> res_score (rs ! i) = m_score (?ms ! i)"
    if "i < length rs" for i
    using present_match_id_score [OF map_throwing_nth [OF mt that]] .
  have ids: "map res_id rs = map m_id ?ms"
    using len each by (simp add: list_eq_iff_nth_eq)
  have scores: "map res_score rs = map m_score ?ms"
    using len each by (simp add: list_eq_iff_nth_eq)
  have ordered: "\<forall>i. Suc i < length rs \<longrightarrow> score_ge (res_score (rs ! i)) (res_score (rs ! Suc i))"
    if h: "\<forall>i. Suc i < length ?ms \<longrightarrow> score_ge (m_score (?ms ! i)) (m_score (?ms ! Suc i))"
  proof (intro allI impI)
    fix i assume i: "Suc i < length rs"
    then have "i < length rs" by simp
    with i each h len show "score_ge (res_score (rs ! i)) (res_score (rs ! Suc i))"
      by simp
  qed
  from ids scores ordered show ?thesis by blast
qed

theorem semanticSearch_keeps_order_witness:
  "map m_score demo_matches = [Some (9 / 10), Some (8 / 10), Some (7 / 10)] \<and>
   score_ge (Some (9 / 10 :: real)) (Some (8 / 10)) \<and>
   score_ge (Some (8 / 10 :: real)) (Some (7 / 10)) \<and>
   (case fst (semanticSearch (\<lambda>_. []) demo_query 3 (world_with demo_matches)) of
      Inl e \<Rightarrow> False
    | Inr rs \<Rightarrow> map res_id rs = [js_lit ''1'', js_lit ''2'', js_lit ''3''] \<and>
               map res_score rs = [Some (9 / 10), Some (8 / 10), Some (7 / 10)] \<and>
               score_ge (res_score (rs ! 0)) (res_score (rs ! 1)) \<and>
               score_ge (res_score (rs ! 1)) (res_score (rs ! 2)))"
proof -
  let ?w = "world_with demo_matches"
  obtain rs where rs: "fst (semanticSearch (\<lambda>_. []) demo_query 3 ?w) = Inr rs"
    using demo_search by blast
  then have run: "semanticSearch (\<lambda>_. []) demo_query 3 ?w
               = (Inr rs, snd (semanticSearch (\<lambda>_. []) demo_query 3 ?w))"
    by (rule run_pair)
  note t = semanticSearch_keeps_order [OF run]
  have ms: "remote_matches ?w demo_query 3 = demo_matches"
    by (rule demo_remote_matches)
  have sc: "map m_score demo_matches = [Some (9 / 10), Some (8 / 10), Some (7 / 10)]"
    by (simp add: demo_matches_def long_match_def short_match_def bare_match_def)
  have idl: "map m_id demo_matches = [js_lit ''1'', js_lit ''2'', js_lit ''3'']"
    by (simp add: demo_matches_def long_match_def short_match_def bare_match_def)
  have sorted_in: "\<forall>i. Suc i < length (remote_matches ?w demo_query 3) \<longrightarrow>
      score_ge (m_score (remote_matches ?w demo_query 3 ! i))
               (m_score (remote_matches ?w demo_query 3 ! Suc i))"
    unfolding ms
    by (simp add: demo_matches_def long_match_def short_match_def bare_match_def
        less_Suc_eq all_conj_distrib)
  from t sorted_in have out: "\<forall>i. Suc i < length rs \<longrightarrow>
      score_ge (res_score (rs ! i)) (res_score (rs ! Suc i))"
    by blast
  from t have m1: "map res_id rs = [js_lit ''1'', js_lit ''2'', js_lit ''3'']"
    by (simp add: ms idl)
  from t have m2: "map res_score rs = [Some (9 / 10), Some (8 / 10), Some (7 / 10)]"
    by (simp add: ms sc)
  from m2 have "length rs = 3" by (metis length_map length_Cons list.size(3) numeral_3_eq_3)
  with out have "score_ge (res_score (rs ! 0)) (res_score (rs ! 1)) \<and>
                 score_ge (res_score (rs ! 1)) (res_score (rs ! 2))"
    by (simp add: numeral_3_eq_3 numeral_2_eq_2)
  with m1 m2 sc rs show ?thesis by simp
qed

section \<open>The marker is appended unconditionally\<close>

text \<open>
  C9, as the claim states it, fails: a stored content that is itself 50 code units
  followed by the marker comes back equal to the stored string.
\<close>

theorem semanticSearch_untouched_counterexample:
  "fst (semanticSearch (\<lambda>_. []) demo_query 3 (world_with [edge_match])) =
     Inr [\<lparr>res_id = js_lit ''4'', res_title = Some (MString (js_lit ''Grilled Cheese'')),
           res_content = edge_content, res_score = Some (6 / 10)\<rparr>] \<and>
   m_metadata edge_match = Some \<lparr>md_title = Some (MString (js_lit ''Grilled Cheese'')),
                                  md_content = Some (MString edge_content)\<rparr>"
  using edge_search by (simp add: edge_match_def)

text \<open>
  C9, amended. Whenever a match carries a content, the result's content is the first 50
  code units of its text (all of it, if shorter) followed by the marker. For a text of
  50 code units or fewer this is the whole text plus the marker and so differs from the
  text. The result can equal the stored text only when that text is itself 50 code
  units followed by the marker.
\<close>

theorem semanticSearch_always_appends:
  assumes "semanticSearch ns query topK w = (Inr rs, w')"
    and "i < length rs"
    and "m_metadata (remote_matches w query topK ! i) = Some md"
    and "md_content md = Some c"
  shows "res_content (rs ! i) = take 50 (toString ns c) @ ellipsis \<and>
         (length (toString ns c) \<le> 50 \<longrightarrow>
            res_content (rs ! i) = toString ns c @ ellipsis \<and>
            res_content (rs ! i) \<noteq> toString ns c) \<and>
         (res_content (rs ! i) = toString ns c \<longrightarrow>
            length (toString ns c) = 50 + length ellipsis \<and>
            drop 50 (toString ns c) = ellipsis)"
proof -
  let ?s = "toString ns c"
  have mt: "map_throwing (present_match ns) (remote_matches w query topK) = Inr rs"
    using assms(1) by (rule semanticSearch_Inr)
  have eq: "res_content (rs ! i) = take 50 ?s @ ellipsis"
    using present_match_stored [OF map_throwing_nth [OF mt assms(2)] assms(3) assms(4)] by simp
  have short: "res_content (rs ! i) = ?s @ ellipsis \<and> res_content (rs ! i) \<noteq> ?s"
    if "length ?s \<le> 50"
  proof -
    from that have "take 50 ?s = ?s" by simp
    with eq have e: "res_content (rs ! i) = ?s @ ellipsis" by simp
    have "ellipsis \<noteq> []" by (simp add: ellipsis_def)
    then have "?s @ ellipsis \<noteq> ?s" by (simp only: append_self_conv not_False_eq_True)
    with e show ?thesis by simp
  qed
  have same: "length ?s = 50 + length ellipsis \<and> drop 50 ?s = ellipsis"
    if "res_content (rs ! i) = ?s"
  proof -
    from that [symmetric] eq have e: "?s = take 50 ?s @ ellipsis" by (rule trans)
    have "\<not> length ?s \<le> 50" using short that by blast
    then have l: "length (take 50 ?s) = 50" by simp
    have "drop 50 ?s = drop 50 (take 50 ?s @ ellipsis)"
      using e by (rule arg_cong)
    also have "\<dots> = ellipsis" using l by simp
    finally have d: "drop 50 ?s = ellipsis" .
    have "length ?s = length (take 50 ?s @ ellipsis)"
      using e by (rule arg_cong)
    also have "\<dots> = length (take 50 ?s) + length ellipsis" by (rule length_append)
    also have "\<dots> = 50 + length ellipsis" by (simp only: l)
    finally have "length ?s = 50 + length ellipsis" .
    with d show ?thesis by simp
  qed
  from eq short same show ?thesis by blast
qed

theorem semanticSearch_always_appends_witness:
  "length (js_lit ''Simmer.'') \<le> 50 \<and>
   (case fst (semanticSearch (\<lambda>_. []) demo_query 3 (world_with demo_matches)) of
      Inl e \<Rightarrow> False
    | Inr rs \<Rightarrow> res_content (rs ! 1) = js_lit ''Simmer.'' @ ellipsis \<and>
               res_content (rs ! 1) \<noteq> js_lit ''Simmer.'') \<and>
   (case fst (semanticSearch (\<lambda>_. []) demo_query 3 (world_with [edge_match])) of
      Inl e \<Rightarrow> False
    | Inr rs \<Rightarrow> res_content (rs ! 0) = edge_content \<and>
               length edge_content = 50 + length ellipsis \<and>
               drop 50 edge_content = ellipsis)"
proof -
  let ?w = "world_with demo_matches"
  let ?v = "world_with [edge_match]"
  let ?md = "\<lparr>md_title = Some (MString (js_lit ''Tomato Soup'')),
              md_content = Some (MString (js_lit ''Simmer.'') :: real meta_value)\<rparr>"
  let ?me = "\<lparr>md_title = Some (MString (js_lit ''Grilled Cheese'')),
              md_content = Some (MString edge_content :: real meta_value)\<rparr>"
  obtain rs where rs: "fst (semanticSearch (\<lambda>_. []) demo_query 3 ?w) = Inr rs"
    using demo_search by blast
  then have run: "semanticSearch (\<lambda>_. []) demo_query 3 ?w
               = (Inr rs, snd (semanticSearch (\<lambda>_. []) demo_query 3 ?w))"
    by (rule run_pair)
  have len: "1 < length rs"
    using rs demo_search by auto
  have md: "m_metadata (remote_matches ?w demo_query 3 ! 1) = Some ?md"
    unfolding demo_remote_matches by (simp add: demo_matches_def short_match_def)
  have c: "md_content ?md = Some (MString (js_lit ''Simmer.''))" by simp
  note t = semanticSearch_always_appends [OF run len md c, unfolded toString.simps]
  have short: "length (js_lit ''Simmer.'') \<le> 50" by (simp add: js_lit_def)
  from t short have a: "res_content (rs ! 1) = js_lit ''Simmer.'' @ ellipsis \<and>
               res_content (rs ! 1) \<noteq> js_lit ''Simmer.''"
    by blast
  obtain es where es: "fst (semanticSearch (\<lambda>_. []) demo_query 3 ?v) = Inr es"
      and es0: "res_content (es ! 0) = edge_content"
    using edge_search by simp
  from es have erun: "semanticSearch (\<lambda>_. []) demo_query 3 ?v
               = (Inr es, snd (semanticSearch (\<lambda>_. []) demo_query 3 ?v))"
    by (rule run_pair)
  have elen: "0 < length es"
    using es edge_search by auto
  have emd: "m_metadata (remote_matches ?v demo_query 3 ! 0) = Some ?me"
    by (simp add: remote_matches_def world_with_def edge_match_def)
  have ec: "md_content ?me = Some (MString edge_content)" by simp
  note u = semanticSearch_always_appends [OF erun elen emd ec, unfolded toString.simps]
  from u es0 have b: "length edge_content = 50 + length ellipsis \<and>
               drop 50 edge_content = ellipsis"
    by blast
  from a b short rs es es0 show ?thesis by (simp add: ellipsis_def)
qed

section \<open>Matches without metadata\<close>

text \<open>
  C10. A match without metadata does not make the mapping throw: its result has an
  undefined title and the content \<open>undefined\<close> followed by the marker.
\<close>

theorem semanticSearch_without_metadata:
  "(m_metadata m = None \<longrightarrow>
      present_match ns m = Inr \<lparr>res_id = m_id m, res_title = None,
        res_content = js_lit ''undefined'' @ ellipsis, res_score = m_score m\<rparr>) \<and>
   (semanticSearch ns query topK w = (Inr rs, w') \<longrightarrow>
      (\<forall>i. i < length rs \<and> m_metadata (remote_matches w query topK ! i) = None \<longrightarrow>
         res_title (rs ! i) = None \<and> res_content (rs ! i) = js_lit ''undefined'' @ ellipsis))"
proof -
  have a: "m_metadata m = None \<longrightarrow>
      present_match ns m = Inr \<lparr>res_id = m_id m, res_title = None,
        res_content = js_lit ''undefined'' @ ellipsis, res_score = m_score m\<rparr>"
    by (simp add: present_match_bare)
  have b: "res_title (rs ! i) = None \<and> res_content (rs ! i) = js_lit ''undefined'' @ ellipsis"
    if run: "semanticSearch ns query topK w = (Inr rs, w')" and i: "i < length rs"
      and bare: "m_metadata (remote_matches w query topK ! i) = None" for i
  proof -
    have mt: "map_throwing (present_match ns) (remote_matches w query topK) = Inr rs"
      using run by (rule semanticSearch_Inr)
    from map_throwing_nth [OF mt i] present_match_bare [OF bare, of ns]
    have "rs ! i = \<lparr>res_id = m_id (remote_matches w query topK ! i), res_title = None,
        res_content = js_lit ''undefined'' @ ellipsis,
        res_score = m_score (remote_matches w query topK ! i)\<rparr>"
      by simp
    then show ?thesis by simp
  qed
  from a b show ?thesis by blast
qed

theorem semanticSearch_without_metadata_witness:
  "m_metadata bare_match = None \<and>
   present_match (\<lambda>_. []) bare_match
     = Inr \<lparr>res_id = js_lit ''3'', res_title = None,
            res_content = js_lit ''undefined'' @ ellipsis, res_score = Some (7 / 10)\<rparr> \<and>
   (case fst (semanticSearch (\<lambda>_. []) demo_query 3 (world_with demo_matches)) of
      Inl e \<Rightarrow> False
    | Inr rs \<Rightarrow> res_title (rs ! 2) = None \<and>
               res_content (rs ! 2) = js_lit ''undefined'' @ ellipsis)"
proof -
  let ?w = "world_with demo_matches"
  obtain rs where rs: "fst (semanticSearch (\<lambda>_. []) demo_query 3 ?w) = Inr rs"
    using demo_search by blast
  then have run: "semanticSearch (\<lambda>_. []) demo_query 3 ?w
               = (Inr rs, snd (semanticSearch (\<lambda>_. []) demo_query 3 ?w))"
    by (rule run_pair)
  have len: "2 < length rs"
    using rs demo_search by auto
  have bare: "m_metadata bare_match = None" by (simp add: bare_match_def)
  have bare2: "m_metadata (remote_matches ?w demo_query 3 ! 2) = None"
    unfolding demo_remote_matches by (simp add: demo_matches_def bare_match_def)
  note t = semanticSearch_without_metadata
    [of bare_match "\<lambda>_. []" demo_query 3 ?w rs "snd (semanticSearch (\<lambda>_. []) demo_query 3 ?w)"]
  from t bare have p: "present_match (\<lambda>_. []) bare_match
     = Inr \<lparr>res_id = m_id bare_match, res_title = None,
            res_content = js_lit ''undefined'' @ ellipsis, res_score = m_score bare_match\<rparr>"
    by blast
  from t run len bare2 have q: "res_title (rs ! 2) = None \<and>
               res_content (rs ! 2) = js_lit ''undefined'' @ ellipsis"
    by blast
  from p q bare rs show ?thesis by (simp add: bare_match_def)
qed

section \<open>The configuration guards\<close>

text \<open>
  C1, as the claim states it, fails: with both variables present in the environment,
  the Pinecone one holding the empty string, the script still raises the configuration
  error.
\<close>

theorem script_empty_key_counterexample:
  "fst (script (\<lambda>_. []) \<lparr>PINECONE_API_KEY = Some [], OPEN_AI_API_KEY = Some (js_lit ''sk-key'')\<rparr>
          corpus (world_with demo_matches))
     = Inl (Error ''Pinecone API key is required'')"
  by (simp add: script_def falsy_def throw_io_def)

text \<open>
  C1, amended. A Pinecone key that is absent or empty makes the script raise the
  Pinecone error, and otherwise an OpenAI key that is absent or empty makes it raise the
  OpenAI error; the two errors differ, and in both cases the world is left as it was:
  no remote call, no output. With both keys present and not empty the script raises no
  \<open>Error\<close> of its own.
\<close>

theorem script_config_guards:
  "((PINECONE_API_KEY env = None \<or> PINECONE_API_KEY env = Some []) \<longrightarrow>
      script ns env recipes w = (Inl (Error ''Pinecone API key is required''), w)) \<and>
   ((\<exists>p. PINECONE_API_KEY env = Some p \<and> p \<noteq> []) \<and>
    (OPEN_AI_API_KEY env = None \<or> OPEN_AI_API_KEY env = Some []) \<longrightarrow>
      script ns env recipes w = (Inl (Error ''OpenAI API key is required''), w)) \<and>
   Error ''Pinecone API key is required'' \<noteq> Error ''OpenAI API key is required'' \<and>
   ((\<exists>p. PINECONE_API_KEY env = Some p \<and> p \<noteq> []) \<and>
    (\<exists>k. OPEN_AI_API_KEY env = Some k \<and> k \<noteq> []) \<longrightarrow>
      (\<forall>msg. fst (script ns env recipes w) \<noteq> Inl (Error msg)))"
proof -
  have a: "script ns env recipes w = (Inl (Error ''Pinecone API key is required''), w)"
    if "PINECONE_API_KEY env = None \<or> PINECONE_API_KEY env = Some []"
    using that by (auto simp: script_def falsy_def throw_io_def)
  have b: "script ns env recipes w = (Inl (Error ''OpenAI API key is required''), w)"
    if "\<exists>p. PINECONE_API_KEY env = Some p \<and> p \<noteq> []"
      and "OPEN_AI_API_KEY env = None \<or> OPEN_AI_API_KEY env = Some []"
    using that by (auto simp: script_def falsy_def throw_io_def)
  have c: "Error ''Pinecone API key is required'' \<noteq> Error ''OpenAI API key is required''"
    by simp
  have d: "\<forall>msg. fst (script ns env recipes w) \<noteq> Inl (Error msg)"
    if "\<exists>p. PINECONE_API_KEY env = Some p \<and> p \<noteq> []"
      and "\<exists>k. OPEN_AI_API_KEY env = Some k \<and> k \<noteq> []"
  proof -
    from that have "\<not> falsy (PINECONE_API_KEY env)" "\<not> falsy (OPEN_AI_API_KEY env)"
      by (auto simp: falsy_def)
    then show ?thesis by (blast dest: script_no_Error)
  qed
  from a b c d show ?thesis by blast
qed

theorem script_config_guards_witness:
  "script (\<lambda>_. []) \<lparr>PINECONE_API_KEY = None, OPEN_AI_API_KEY = Some (js_lit ''sk-key'')\<rparr>
      corpus (world_with demo_matches)
     = (Inl (Error ''Pinecone API key is required''), world_with demo_matches) \<and>
   script (\<lambda>_. []) \<lparr>PINECONE_API_KEY = Some (js_lit ''pc-key''), OPEN_AI_API_KEY = None\<rparr>
      corpus (world_with demo_matches)
     = (Inl (Error ''OpenAI API key is required''), world_with demo_matches) \<and>
   fst (script (\<lambda>_. []) demo_env corpus (world_with demo_matches))
     \<noteq> Inl (Error ''Pinecone API key is required'') \<and>
   fst (script (\<lambda>_. []) demo_env corpus (world_with demo_matches))
     \<noteq> Inl (Error ''OpenAI API key is required'')"
proof -
  let ?e1 = "\<lparr>PINECONE_API_KEY = None, OPEN_AI_API_KEY = Some (js_lit ''sk-key'')\<rparr>"
  let ?e2 = "\<lparr>PINECONE_API_KEY = Some (js_lit ''pc-key''), OPEN_AI_API_KEY = None\<rparr>"
  let ?w = "world_with demo_matches"
  have h1: "PINECONE_API_KEY ?e1 = None \<or> PINECONE_API_KEY ?e1 = Some []" by simp
  have h2: "(\<exists>p. PINECONE_API_KEY ?e2 = Some p \<and> p \<noteq> []) \<and>
            (OPEN_AI_API_KEY ?e2 = None \<or> OPEN_AI_API_KEY ?e2 = Some [])"
    by (simp add: js_lit_def)
  have h3: "(\<exists>p. PINECONE_API_KEY demo_env = Some p \<and> p \<noteq> []) \<and>
            (\<exists>k. OPEN_AI_API_KEY demo_env = Some k \<and> k \<noteq> [])"
    by (simp add: demo_env_def js_lit_def)
  from script_config_guards [of ?e1 "\<lambda>_. []" corpus ?w] h1
  have a: "script (\<lambda>_. []) ?e1 corpus ?w = (Inl (Error ''Pinecone API key is required''), ?w)"
    by blast
  from script_config_guards [of ?e2 "\<lambda>_. []" corpus ?w] h2
  have b: "script (\<lambda>_. []) ?e2 corpus ?w = (Inl (Error ''OpenAI API key is required''), ?w)"
    by blast
  from script_config_guards [of demo_env "\<lambda>_. []" corpus ?w] h3
  have c: "\<forall>msg. fst (script (\<lambda>_. []) demo_env corpus ?w) \<noteq> Inl (Error msg)"
    by blast
  from a b c show ?thesis by blast
qed

section \<open>Ensuring the index twice\<close>

text \<open>
  C2. From a world where the index is not yet listed and the three remote calls involved
  do not raise, two calls of \<open>getIndex\<close> in succession both return a handle named after
  the configured index, which is listed from the first call on. The first call lists and
  creates, the second only lists: exactly one creation among the calls made.
\<close>

theorem getIndex_twice_creates_once:
  assumes "\<not> listed w"
    and "faults w (clock w) = None"
    and "faults w (Suc (clock w)) = None"
    and "faults w (Suc (Suc (clock w))) = None"
  shows "\<exists>w1 w2. getIndex w = (Inr (Index indexName), w1) \<and>
           getIndex w1 = (Inr (Index indexName), w2) \<and>
           handle_name (Index indexName) = js_lit ''recipes'' \<and>
           listed w1 \<and> listed w2 \<and>
           trace w1 = trace w @ [ListIndexes, CreateIndex create_options] \<and>
           trace w2 = trace w1 @ [ListIndexes] \<and>
           length (filter is_create (drop (length (trace w)) (trace w2))) = 1"
proof -
  let ?w1 = "w\<lparr>clock := Suc (Suc (clock w)),
      trace := trace w @ [ListIndexes, CreateIndex create_options],
      indexes := Some ((case indexes w of None \<Rightarrow> [] | Some xs \<Rightarrow> xs) @ [create_options])\<rparr>"
  let ?w2 = "?w1\<lparr>clock := Suc (clock ?w1), trace := trace ?w1 @ [ListIndexes]\<rparr>"
  have first: "getIndex w = (Inr (Index indexName), ?w1)"
    using assms(1,2,3) by (simp add: getIndex_unfold)
  have l1: "listed ?w1"
    by (simp add: listed_def create_options_fields)
  have f1: "faults ?w1 (clock ?w1) = None"
    using assms(4) by simp
  have second: "getIndex ?w1 = (Inr (Index indexName), ?w2)"
    using l1 f1 by (subst getIndex_unfold) (simp only: option.case if_True)
  have l2: "listed ?w2"
    using l1 by (simp add: listed_def)
  have t1: "trace ?w1 = trace w @ [ListIndexes, CreateIndex create_options]" by simp
  have t2: "trace ?w2 = trace ?w1 @ [ListIndexes]" by simp
  have n: "length (filter is_create (drop (length (trace w)) (trace ?w2))) = 1" by simp
  have nm: "handle_name (Index indexName) = js_lit ''recipes''" by (simp add: indexName_def)
  from first second nm l1 l2 t1 t2 n show ?thesis by blast
qed

theorem getIndex_twice_creates_once_witness:
  "\<not> listed (world_with demo_matches) \<and>
   fst (getIndex (world_with demo_matches)) = Inr (Index (js_lit ''recipes'')) \<and>
   fst (getIndex (snd (getIndex (world_with demo_matches)))) = Inr (Index (js_lit ''recipes'')) \<and>
   map shape (trace (snd (getIndex (snd (getIndex (world_with demo_matches))))))
     = [SList, SCreate, SList] \<and>
   length (filter is_create (trace (snd (getIndex (snd (getIndex (world_with demo_matches))))))) = 1"
proof -
  let ?w = "world_with demo_matches"
  have h1: "\<not> listed ?w" by (simp add: listed_def world_with_def)
  have h2: "faults ?w (clock ?w) = None" "faults ?w (Suc (clock ?w)) = None"
    "faults ?w (Suc (Suc (clock ?w))) = None"
    by (simp_all add: world_with_def)
  have t0: "trace ?w = []" by (simp add: world_with_def)
  from getIndex_twice_creates_once [OF h1 h2] obtain w1 w2 where
    a: "getIndex ?w = (Inr (Index indexName), w1)" and
    b: "getIndex w1 = (Inr (Index indexName), w2)" and
    t: "trace w1 = trace ?w @ [ListIndexes, CreateIndex create_options]"
       "trace w2 = trace w1 @ [ListIndexes]" and
    n: "length (filter is_create (drop (length (trace ?w)) (trace w2))) = 1"
    by blast
  from a have s1: "snd (getIndex ?w) = w1" by simp
  from b have s2: "snd (getIndex w1) = w2" by simp
  from t t0 have sh: "map shape (trace w2) = [SList, SCreate, SList]" by simp
  from n t0 have n': "length (filter is_create (trace w2)) = 1" by simp
  from h1 a b sh n' show ?thesis
    by (simp add: s1 s2 indexName_def)
qed

section \<open>The embedding call\<close>

text \<open>
  C7. Take the contract of the embedding service: every request to the model is answered
  with at least one item, and each item's vector has 1536 numbers. Then for every input
  text, whenever \<open>generateEmbedding\<close> returns, its value is the first vector of the
  response and has 1536 numbers; and when the call does not raise it does return that
  vector, after the one request to the embedding endpoint.
\<close>

theorem generateEmbedding_first_vector:
  assumes "\<forall>t. embed_answer w (js_lit ''text-embedding-ada-002'') t \<noteq> [] \<and>
             (\<forall>d \<in> set (embed_answer w (js_lit ''text-embedding-ada-002'') t).
                length (embedding d) = 1536)"
  shows "(generateEmbedding text w = (Inr v, w') \<longrightarrow>
            v = embedding (hd (embed_answer w (js_lit ''text-embedding-ada-002'') text)) \<and>
            length v = 1536) \<and>
         (faults w (clock w) = None \<longrightarrow>
            generateEmbedding text w =
              (Inr (embedding (hd (embed_answer w (js_lit ''text-embedding-ada-002'') text))),
               w\<lparr>clock := Suc (clock w),
                 trace := trace w @ [EmbeddingsCreate (js_lit ''text-embedding-ada-002'') text]\<rparr>) \<and>
            length (embedding (hd (embed_answer w (js_lit ''text-embedding-ada-002'') text))) = 1536)"
proof -
  let ?data = "embed_answer w (js_lit ''text-embedding-ada-002'') text"
  from assms have ne: "?data \<noteq> []"
    and all: "\<forall>d \<in> set ?data. length (embedding d) = 1536"
    by blast+
  from ne have "hd ?data \<in> set ?data" by simp
  with all have len: "length (embedding (hd ?data)) = 1536" by blast
  from ne obtain d ds where data: "?data = d # ds" by (cases ?data) auto
  have a: "v = embedding (hd ?data) \<and> length v = 1536"
    if "generateEmbedding text w = (Inr v, w')"
  proof -
    from generateEmbedding_ok [OF that] have "v = embedding (hd ?data)" by simp
    with len show ?thesis by simp
  qed
  have b: "generateEmbedding text w =
              (Inr (embedding (hd ?data)),
               w\<lparr>clock := Suc (clock w),
                 trace := trace w @ [EmbeddingsCreate (js_lit ''text-embedding-ada-002'') text]\<rparr>)"
    if "faults w (clock w) = None"
    using that data by (simp add: generateEmbedding_unfold)
  from a b len show ?thesis by blast
qed

theorem generateEmbedding_first_vector_witness:
  "embed_answer ada_world (js_lit ''text-embedding-ada-002'') demo_query
     = [\<lparr>embedding = replicate 1536 (1 / 2)\<rparr>] \<and>
   faults ada_world (clock ada_world) = None \<and>
   fst (generateEmbedding demo_query ada_world) = Inr (replicate 1536 (1 / 2)) \<and>
   length (replicate 1536 (1 / 2 :: real)) = 1536"
proof -
  have contract: "\<forall>t. embed_answer ada_world (js_lit ''text-embedding-ada-002'') t \<noteq> [] \<and>
             (\<forall>d \<in> set (embed_answer ada_world (js_lit ''text-embedding-ada-002'') t).
                length (embedding d) = 1536)"
    by (simp add: ada_world_def world_with_def)
  have ans: "embed_answer ada_world (js_lit ''text-embedding-ada-002'') demo_query
      = [\<lparr>embedding = replicate 1536 (1 / 2)\<rparr>]"
    by (simp add: ada_world_def world_with_def)
  have nofault: "faults ada_world (clock ada_world) = None"
    by (simp add: ada_world_def world_with_def)
  note t = generateEmbedding_first_vector [OF contract, of demo_query, THEN conjunct2]
  from t nofault have "generateEmbedding demo_query ada_world
      = (Inr (embedding (hd (embed_answer ada_world (js_lit ''text-embedding-ada-002'') demo_query))),
         ada_world\<lparr>clock := Suc (clock ada_world),
           trace := trace ada_world
             @ [EmbeddingsCreate (js_lit ''text-embedding-ada-002'') demo_query]\<rparr>)"
    by blast
  then have "fst (generateEmbedding demo_query ada_world)
      = Inr (embedding (hd (embed_answer ada_world (js_lit ''text-embedding-ada-002'') demo_query)))"
    by (simp only: fst_conv)
  then have run: "fst (generateEmbedding demo_query ada_world) = Inr (replicate 1536 (1 / 2))"
    unfolding ans by simp
  have len: "length (replicate 1536 (1 / 2 :: real)) = 1536" by (rule length_replicate)
  from ans nofault run len show ?thesis by blast
qed

section \<open>A failure while indexing\<close>

text \<open>
  C4. Suppose the loop has indexed the documents \<open>pre\<close> and \<open>indexDocument\<close> then fails
  on the next document \<open>d\<close>, after its progress line. Then the loop over the whole corpus
  ends with that same error in the world of the failure, whatever documents follow: none
  of them is attempted. The stored records are those left by \<open>pre\<close>: each of its ids is
  still stored, with the record written for it when the ids are distinct. The script as
  a whole ends with the same error in the same world; nothing catches it.
\<close>

theorem indexing_stops_at_first_failure:
  assumes "index_all pre w = (Inr (), w1)"
    and "indexDocument d (w1\<lparr>trace := trace w1 @ [ConsoleLog (progress_line d)]\<rparr>) = (Inl e, w2)"
  shows "index_all (pre @ d # post) w = (Inl e, w2) \<and>
         stored w2 = stored w1 \<and>
         (\<forall>p \<in> set pre. stored w2 indexName (recipe_id p) \<noteq> None) \<and>
         (distinct (map recipe_id pre) \<longrightarrow>
            (\<forall>p \<in> set pre. stored w2 indexName (recipe_id p) = Some (upserted w p))) \<and>
         (\<not> falsy (PINECONE_API_KEY env) \<and> \<not> falsy (OPEN_AI_API_KEY env) \<longrightarrow>
            script ns env (pre @ d # post) w = (Inl e, w2))"
proof -
  have loop: "index_all (pre @ d # post) w = (Inl e, w2)"
    using assms by (rule index_all_append_fail)
  have "stored w2 = stored (w1\<lparr>trace := trace w1 @ [ConsoleLog (progress_line d)]\<rparr>)"
    using indexDocument_any [OF assms(2)] by simp
  then have same: "stored w2 = stored w1" by simp
  have st: "stored w1 indexName
      = fold (\<lambda>d m. m(recipe_id d \<mapsto> upserted w d)) pre (stored w indexName)"
    using index_all_ok [OF assms(1)] by simp
  have present: "\<forall>p \<in> set pre. stored w2 indexName (recipe_id p) \<noteq> None"
  proof
    fix p assume "p \<in> set pre"
    then show "stored w2 indexName (recipe_id p) \<noteq> None"
      unfolding same st by (rule fold_put_present)
  qed
  have exact: "\<forall>p \<in> set pre. stored w2 indexName (recipe_id p) = Some (upserted w p)"
    if dist: "distinct (map recipe_id pre)"
  proof
    fix p assume "p \<in> set pre"
    with dist show "stored w2 indexName (recipe_id p) = Some (upserted w p)"
      unfolding same st by (rule fold_put_distinct)
  qed
  have whole: "script ns env (pre @ d # post) w = (Inl e, w2)"
    if "\<not> falsy (PINECONE_API_KEY env) \<and> \<not> falsy (OPEN_AI_API_KEY env)"
    using that loop by (simp add: script_guarded)
  from loop same present exact whole show ?thesis by blast
qed

theorem indexing_stops_at_first_failure_witness:
  "fst (index_all [vanilla] (failing_world 5)) = Inr () \<and>
   fst (indexDocument soup
         ((snd (index_all [vanilla] (failing_world 5)))
            \<lparr>trace := trace (snd (index_all [vanilla] (failing_world 5)))
                        @ [ConsoleLog (progress_line soup)]\<rparr>)) = Inl (Remote ''rate limit'') \<and>
   distinct (map recipe_id [vanilla]) \<and>
   \<not> falsy (PINECONE_API_KEY demo_env) \<and> \<not> falsy (OPEN_AI_API_KEY demo_env) \<and>
   fst (index_all corpus (failing_world 5)) = Inl (Remote ''rate limit'') \<and>
   fst (script (\<lambda>_. []) demo_env corpus (failing_world 5)) = Inl (Remote ''rate limit'') \<and>
   stored (snd (script (\<lambda>_. []) demo_env corpus (failing_world 5))) indexName (recipe_id vanilla)
     = Some (upserted (failing_world 5) vanilla) \<and>
   stored (snd (script (\<lambda>_. []) demo_env corpus (failing_world 5))) indexName (recipe_id vanilla)
     \<noteq> None"
proof -
  let ?w = "failing_world 5"
  let ?w1 = "snd (index_all [vanilla] ?w)"
  let ?w1' = "?w1\<lparr>trace := trace ?w1 @ [ConsoleLog (progress_line soup)]\<rparr>"
  let ?w2 = "snd (indexDocument soup ?w1')"
  from demo_failing_run have f1: "fst (index_all [vanilla] ?w) = Inr ()"
    by (rule conjunct1)
  from demo_failing_run have f2: "fst (indexDocument soup ?w1') = Inl (Remote ''rate limit'')"
    by (rule conjunct2)
  have h1: "index_all [vanilla] ?w = (Inr (), ?w1)"
    using f1 by (rule run_pair)
  have h2: "indexDocument soup ?w1' = (Inl (Remote ''rate limit''), ?w2)"
    using f2 by (rule run_pair)
  have v: "vanilla \<in> set [vanilla]" by simp
  have h3: "distinct (map recipe_id [vanilla])" by simp
  have h4: "\<not> falsy (PINECONE_API_KEY demo_env) \<and> \<not> falsy (OPEN_AI_API_KEY demo_env)"
    by (simp add: falsy_def demo_env_def js_lit_def)
  have c: "corpus = [vanilla] @ soup # [cheese]" by (simp add: corpus_def)
  note t = indexing_stops_at_first_failure [OF h1 h2, of "[cheese]" demo_env "\<lambda>_. []"]
  from t have loop: "index_all corpus ?w = (Inl (Remote ''rate limit''), ?w2)"
    unfolding c by (rule conjunct1)
  from t h4 have whole: "script (\<lambda>_. []) demo_env corpus ?w = (Inl (Remote ''rate limit''), ?w2)"
    unfolding c by blast
  from t h3 v have kept: "stored ?w2 indexName (recipe_id vanilla) = Some (upserted ?w vanilla)"
    by blast
  from t v have there: "stored ?w2 indexName (recipe_id vanilla) \<noteq> None"
    by blast
  from loop have l: "fst (index_all corpus ?w) = Inl (Remote ''rate limit'')"
    by (simp only: fst_conv)
  from whole have s: "fst (script (\<lambda>_. []) demo_env corpus ?w) = Inl (Remote ''rate limit'')"
    by (simp only: fst_conv)
  from whole have s2: "snd (script (\<lambda>_. []) demo_env corpus ?w) = ?w2"
    by (simp only: snd_conv)
  from f1 f2 h3 h4 l s kept there show ?thesis
    unfolding s2 by blast
qed

section \<open>The order of the steps\<close>

text \<open>
  C5, as the claim states it, fails: the index is not ensured once before the loop.
  \<open>indexDocument\<close> and \<open>semanticSearch\<close> each call \<open>getIndex\<close>, so a run over three
  documents lists the indexes four times, once per document after its progress line and
  once more after the query has been embedded. The steps of the run differ from the
  sequence the specification describes, which lists the indexes once.
\<close>

theorem script_steps_counterexample:
  "map shape (trace (snd (script (\<lambda>_. []) demo_env corpus (world_with demo_matches))))
     \<noteq> spec_linear_steps False corpus \<and>
   count_list (map shape (trace (snd (script (\<lambda>_. []) demo_env corpus (world_with demo_matches)))))
     SList = 4 \<and>
   count_list (spec_linear_steps False corpus) SList = 1"
  unfolding demo_script_run [THEN conjunct2]
  by (simp add: spec_linear_steps_def ensure_steps_def corpus_def vanilla_def
      soup_def cheese_def progress_line_def js_lit_def)

text \<open>
  C5, amended. A run that succeeds performs, after the configuration guards, exactly
  these steps in this order: for each document in corpus order its progress line, one
  \<open>getIndex\<close> (a listing, followed by a creation when the index was not listed), the
  embedding of its content and the upsert of its record; then the embedding of the fixed
  query, one more \<open>getIndex\<close>, the query and the table.
\<close>

theorem script_steps_of_run:
  assumes "script ns env recipes w = (Inr u, w')"
  shows "\<exists>evs. trace w' = trace w @ evs \<and> map shape evs = script_steps (listed w) recipes"
proof -
  from assms have g: "\<not> falsy (PINECONE_API_KEY env)" "\<not> falsy (OPEN_AI_API_KEY env)"
    by (auto simp: script_def throw_io_def split: if_splits)
  from assms obtain u1 w1 rs w2 where
    a: "index_all recipes w = (Inr u1, w1)" and
    s: "semanticSearch ns (js_lit ''recipes with ice cream'') 3 w1 = (Inr rs, w2)" and
    w': "w' = w2\<lparr>trace := trace w2 @ [ConsoleTable rs]\<rparr>"
    unfolding script_guarded [OF g]
    by (auto split: prod.splits sum.splits)
  from index_all_ok [OF a] obtain evs1 where
    l1: "listed w1 \<longleftrightarrow> listed w \<or> recipes \<noteq> []" and
    t1: "trace w1 = trace w @ evs1" and
    m1: "map shape evs1 = loop_steps (listed w) recipes"
    by blast
  from semanticSearch_ok [OF s] obtain evs2 where
    t2: "trace w2 = trace w1 @ evs2" and
    m2: "map shape evs2 = [SEmbed (js_lit ''recipes with ice cream'')]
           @ ensure_steps (listed w1) @ [SQuery]"
    by blast
  have "trace w' = trace w @ (evs1 @ evs2 @ [ConsoleTable rs])"
    unfolding w' using t1 t2 by simp
  moreover have "map shape (evs1 @ evs2 @ [ConsoleTable rs]) = script_steps (listed w) recipes"
    using m1 m2 l1 by (simp add: script_steps_def)
  ultimately show ?thesis by blast
qed

theorem script_steps_of_run_witness:
  "fst (script (\<lambda>_. []) demo_env corpus (world_with demo_matches)) = Inr () \<and>
   \<not> listed (world_with demo_matches) \<and>
   map shape (trace (snd (script (\<lambda>_. []) demo_env corpus (world_with demo_matches))))
     = script_steps False corpus"
proof -
  let ?w = "world_with demo_matches"
  from demo_script_run have f: "fst (script (\<lambda>_. []) demo_env corpus ?w) = Inr ()"
    by (rule conjunct1)
  have run: "script (\<lambda>_. []) demo_env corpus ?w
               = (Inr (), snd (script (\<lambda>_. []) demo_env corpus ?w))"
    using f by (rule run_pair)
  have l: "\<not> listed ?w" by (simp add: listed_def world_with_def)
  have t0: "trace ?w = []" by (simp add: world_with_def)
  from script_steps_of_run [OF run] obtain evs where
    "trace (snd (script (\<lambda>_. []) demo_env corpus ?w)) = trace ?w @ evs"
    "map shape evs = script_steps (listed ?w) corpus"
    by blast
  with l t0 have "map shape (trace (snd (script (\<lambda>_. []) demo_env corpus ?w)))
      = script_steps False corpus"
    by simp
  with f l show ?thesis by blast
qed

section \<open>Dimension and metric of the index\<close>

text \<open>
  C6. The dimension is 1536 and the metric is cosine, and whatever happens, every index
  creation that \<open>getIndex\<close>, \<open>indexDocument\<close>, \<open>semanticSearch\<close> or the whole script sends
  asks for dimension 1536 and metric cosine.
\<close>

theorem createIndex_dimension_metric_fixed:
  "dimension = 1536 \<and> metric = js_lit ''cosine'' \<and>
   (getIndex w = (rg, wg) \<longrightarrow>
      (\<exists>evs. trace wg = trace w @ evs \<and>
         (\<forall>opts. CreateIndex opts \<in> set evs \<longrightarrow>
            ix_dimension opts = 1536 \<and> ix_metric opts = js_lit ''cosine''))) \<and>
   (indexDocument d w = (rd, wd) \<longrightarrow>
      (\<exists>evs. trace wd = trace w @ evs \<and>
         (\<forall>opts. CreateIndex opts \<in> set evs \<longrightarrow>
            ix_dimension opts = 1536 \<and> ix_metric opts = js_lit ''cosine''))) \<and>
   (semanticSearch ns query topK w = (rs, ws) \<longrightarrow>
      (\<exists>evs. trace ws = trace w @ evs \<and>
         (\<forall>opts. CreateIndex opts \<in> set evs \<longrightarrow>
            ix_dimension opts = 1536 \<and> ix_metric opts = js_lit ''cosine''))) \<and>
   (script ns env recipes w = (r, w') \<longrightarrow>
      (\<exists>evs. trace w' = trace w @ evs \<and>
         (\<forall>opts. CreateIndex opts \<in> set evs \<longrightarrow>
            ix_dimension opts = 1536 \<and> ix_metric opts = js_lit ''cosine'')))"
proof -
  have fr: "\<exists>evs. trace b = trace a @ evs \<and>
         (\<forall>opts. CreateIndex opts \<in> set evs \<longrightarrow>
            ix_dimension opts = 1536 \<and> ix_metric opts = js_lit ''cosine'')"
    if "frame a b" for a b :: "'a world"
  proof -
    from that obtain evs where evs: "trace b = trace a @ evs" "list_all create_ok evs"
      by (auto simp: frame_def)
    have "ix_dimension opts = 1536 \<and> ix_metric opts = js_lit ''cosine''"
      if "CreateIndex opts \<in> set evs" for opts
    proof -
      from evs(2) have "\<forall>ev \<in> set evs. create_ok ev" by (simp add: list_all_iff)
      with that have "create_ok (CreateIndex opts :: 'a event)" by blast
      then show ?thesis by simp
    qed
    with evs(1) show ?thesis by blast
  qed
  have c: "dimension = 1536 \<and> metric = js_lit ''cosine''"
    by (simp add: dimension_def metric_def)
  have g: "frame w wg" if "getIndex w = (rg, wg)"
    using getIndex_frame [OF that] by simp
  have i: "frame w wd" if "indexDocument d w = (rd, wd)"
    using indexDocument_any [OF that] by simp
  have s: "frame w ws" if "semanticSearch ns query topK w = (rs, ws)"
    using semanticSearch_any [OF that] by simp
  have m: "frame w w'" if "script ns env recipes w = (r, w')"
    using that by (rule script_any)
  from c fr [of w wg] fr [of w wd] fr [of w ws] fr [of w w'] g i s m show ?thesis
    by blast
qed

theorem createIndex_dimension_metric_fixed_witness:
  "CreateIndex create_options
     \<in> set (trace (snd (getIndex (world_with demo_matches)))) \<and>
   ix_dimension create_options = 1536 \<and> ix_metric create_options = js_lit ''cosine''"
proof -
  let ?w = "world_with demo_matches"
  have run: "getIndex ?w = (fst (getIndex ?w), snd (getIndex ?w))" by simp
  have t0: "trace ?w = []" by (simp add: world_with_def)
  have mem: "CreateIndex create_options \<in> set (trace (snd (getIndex ?w)))"
    by (simp add: getIndex_unfold listed_def world_with_def)
  from createIndex_dimension_metric_fixed
    [of ?w "fst (getIndex ?w)" "snd (getIndex ?w)"] run
  obtain evs where evs: "trace (snd (getIndex ?w)) = trace ?w @ evs"
    "\<forall>opts. CreateIndex opts \<in> set evs \<longrightarrow>
        ix_dimension opts = 1536 \<and> ix_metric opts = js_lit ''cosine''"
    by blast
  from evs(1) t0 mem have "CreateIndex create_options \<in> set evs" by simp
  with evs(2) have "ix_dimension create_options = 1536 \<and>
      ix_metric create_options = js_lit ''cosine''"
    by blast
  with mem show ?thesis by simp
qed

end
